theory Spec2Isabelle
  imports Complex_Main
begin

section \<open>JavaScript values\<close>

text \<open>
  The program is JavaScript. Its numbers are modelled as real numbers: every arithmetic
  operation is exact, and rounding of IEEE doubles is not represented. Identifiers (user,
  bot, symbol) are strings; database record ids and venue contract ids are naturals.

  A value that the code only tests for truthiness, with \<open>if (x)\<close> or \<open>if (!x)\<close>, is an
  \<open>option\<close>: \<open>None\<close> stands for \<open>null\<close> and for \<open>undefined\<close>, which such a test does not
  tell apart, and an absent number and the number \<open>0\<close> are both falsy.
\<close>

definition truthy_num :: "real option \<Rightarrow> bool" where
  "truthy_num v = (case v of None \<Rightarrow> False | Some x \<Rightarrow> x \<noteq> 0)"

text \<open>
  A number that the code compares with \<open>>=\<close> without testing it first. Here \<open>undefined\<close>
  and \<open>null\<close> differ: \<open>x >= undefined\<close> is false for every \<open>x\<close>, and \<open>x >= null\<close> is
  \<open>x >= 0\<close>.
\<close>

datatype limit = Unset | NullLimit | Limit real

text \<open>
  The result of an indicator function. \<open>Null\<close> is the JavaScript \<open>null\<close> (or
  \<open>undefined\<close>). \<open>NonFinite\<close> marks the one place where the source divides by its
  \<open>period\<close> argument and that argument is \<open>0\<close>: JavaScript then yields \<open>NaN\<close> or an
  infinity, which a real number cannot represent. Every call site of the program passes
  a positive literal period (12, 14, 20 or 26).
\<close>

datatype 'a outcome = Null | Value 'a | NonFinite

section \<open>Indicator library (BotExecutor, pure functions)\<close>

text \<open>\<open>prices.slice(-n)\<close>: the last \<open>n\<close> elements, the whole array when it is shorter;
  \<open>slice(-0)\<close> is \<open>slice(0)\<close>, the whole array.\<close>

definition slice_last :: "nat \<Rightarrow> 'a list \<Rightarrow> 'a list" where
  "slice_last n xs = (if n = 0 then xs else drop (length xs - n) xs)"

definition calculateSMA :: "real list \<Rightarrow> nat \<Rightarrow> real outcome" where
  "calculateSMA prices period =
     (if length prices < period then Null
      else if period = 0 then NonFinite
      else Value (foldl (\<lambda>sum price. sum + price) 0 (slice_last period prices) / real period))"

definition calculateEMA :: "real list \<Rightarrow> nat \<Rightarrow> real outcome" where
  "calculateEMA prices period =
     (if length prices < period then Null
      else (case prices of
              [] \<Rightarrow> Null
            | p0 # rest \<Rightarrow>
                (let multiplier = 2 / (real period + 1)
                 in Value (foldl (\<lambda>ema p. (p - ema) * multiplier + ema) p0 rest))))"

text \<open>One iteration of the loop of \<open>calculateRSI\<close> at index \<open>i\<close>; the accumulator is
  \<open>(gains, losses)\<close>.\<close>

definition rsi_step :: "real list \<Rightarrow> real \<times> real \<Rightarrow> nat \<Rightarrow> real \<times> real" where
  "rsi_step prices acc i =
     (case acc of (gains, losses) \<Rightarrow>
        (let change = prices ! i - prices ! (i - 1)
         in if change > 0 then (gains + change, losses) else (gains, losses - change)))"

text \<open>The loop runs over \<open>i = length - period, ..., length - 1\<close>. The length check in front
  gives \<open>1 \<le> length - period\<close>, so both reads are in range.\<close>

definition calculateRSI :: "real list \<Rightarrow> nat \<Rightarrow> real outcome" where
  "calculateRSI prices period =
     (if length prices < period + 1 then Null
      else if period = 0 then NonFinite
      else (case foldl (rsi_step prices) (0, 0) [length prices - period ..< length prices] of
              (gains, losses) \<Rightarrow>
                (let avgGain = gains / real period;
                     avgLoss = losses / real period
                 in if avgLoss = 0 then Value 100
                    else (let rs = avgGain / avgLoss in Value (100 - 100 / (1 + rs))))))"

record macd =
  macd_line :: real
  signal_line :: real
  histogram :: real

text \<open>\<open>if (!ema12 || !ema26) return null\<close>: an average that is absent or equal to \<open>0\<close>
  gives \<open>null\<close>.\<close>

definition calculateMACD :: "real list \<Rightarrow> macd option" where
  "calculateMACD prices =
     (case (calculateEMA prices 12, calculateEMA prices 26) of
        (Value ema12, Value ema26) \<Rightarrow>
          if ema12 = 0 \<or> ema26 = 0 then None
          else (let macdLine = ema12 - ema26
                in Some \<lparr>macd_line = macdLine, signal_line = macdLine, histogram = 0\<rparr>)
      | _ \<Rightarrow> None)"

record bands =
  upper :: real
  middle :: real
  lower :: real

text \<open>\<open>if (!sma) return null\<close> is a truthiness test: it catches the \<open>null\<close> of
  \<open>calculateSMA\<close> and also a mean that is \<open>0\<close>.\<close>

definition calculateBollingerBands :: "real list \<Rightarrow> nat \<Rightarrow> real \<Rightarrow> bands outcome" where
  "calculateBollingerBands prices period stdDev =
     (case calculateSMA prices period of
        Null \<Rightarrow> Null
      | NonFinite \<Rightarrow> NonFinite
      | Value sma \<Rightarrow>
          if sma = 0 then Null
          else (let slice = slice_last period prices;
                    variance = foldl (\<lambda>sum price. sum + (price - sma)\<^sup>2) 0 slice / real period;
                    standardDeviation = sqrt variance
                in Value \<lparr>upper = sma + standardDeviation * stdDev,
                          middle = sma,
                          lower = sma - standardDeviation * stdDev\<rparr>))"

text \<open>The population standard deviation of a non-empty list, as the claim about the
  band width names it.\<close>

definition mean :: "real list \<Rightarrow> real" where
  "mean xs = sum_list xs / real (length xs)"

definition population_sd :: "real list \<Rightarrow> real" where
  "population_sd xs = sqrt (sum_list (map (\<lambda>x. (x - mean xs)\<^sup>2) xs) / real (length xs))"

section \<open>Persistent records (the Trade and User collections)\<close>

text \<open>
  The mongoose models are not part of the sources at hand; the records below carry the
  fields the services read and write. \<open>trade_id\<close> is the \<open>_id\<close> of a Trade document,
  \<open>uid\<close> the \<open>_id\<close> of a User document. Creation timestamps are left out.
\<close>

type_synonym uid = string

record trade =
  trade_id :: nat
  trade_userId :: uid
  trade_botId :: "string option"
  trade_symbol :: string
  contractType :: string
  entryPrice :: real
  trade_stake :: real
  trade_duration :: nat
  trade_durationType :: string
  trade_status :: string
  contractId :: "nat option"
  payout :: "real option"
  exitPrice :: "real option"
  profitLoss :: "real option"
  isCopyTrade :: bool
  copyTradeFrom :: "uid option"
  originalTradeId :: "nat option"

record copyTradeSettings =
  enabled :: bool
  investmentPerTrade :: "real option"
  riskPercentage :: "real option"
  maxDailyLoss :: limit

record user =
  uid :: uid
  copySettings :: copyTradeSettings
  following :: "uid list"
  balance :: real
  currency :: string

text \<open>The parameters handed to \<open>getProposal\<close>, together with the user whose session
  is to carry the request.\<close>

record proposal =
  p_user :: uid
  p_contractType :: string
  p_symbol :: string
  p_stake :: real
  p_duration :: nat
  p_durationType :: string
  p_currency :: string

text \<open>The payload of a \<open>proposal_open_contract\<close> frame, as far as the handlers read it.
  \<open>exit_spot\<close> stands for \<open>exit_tick || current_spot\<close>.\<close>

record contract =
  contract_id :: nat
  is_sold :: bool
  c_status :: string
  profit :: real
  exit_spot :: "real option"

definition finished :: "contract \<Rightarrow> bool" where
  "finished c = (is_sold c \<or> c_status c = ''won'' \<or> c_status c = ''lost'')"

text \<open>A fresh \<open>_id\<close> for a document added to a collection.\<close>

definition fresh_id :: "trade list \<Rightarrow> nat" where
  "fresh_id ts = foldl max 0 (map (\<lambda>t. Suc (trade_id t)) ts)"

section \<open>CopyTradeService\<close>

subsection \<open>Stake computation\<close>

definition calculateFollowerStake :: "user \<Rightarrow> real \<Rightarrow> real" where
  "calculateFollowerStake follower originalStake =
     (let settings = copySettings follower
      in if truthy_num (investmentPerTrade settings) then the (investmentPerTrade settings)
         else if truthy_num (riskPercentage settings)
              then (balance follower * the (riskPercentage settings)) / 100
              else min originalStake (balance follower * 0.02))"

subsection \<open>Service state\<close>

text \<open>
  \<open>followers\<close> is the map from a leader to the \<open>Set\<close> of its followers; a JavaScript
  \<open>Set\<close> keeps insertion order and holds no element twice, so it is a list without
  duplicates. \<open>dailyLoss\<close> is the map from a follower to its accumulated loss.
  \<open>listeners\<close> are the handlers that \<open>setupCopyTradeListener\<close> has attached to the
  \<open>contract_update\<close> event and not yet detached: one per \<open>(followerId, tradeId)\<close>.
  \<open>trades\<close> is the Trade collection, \<open>proposals\<close> the \<open>getProposal\<close> calls made so far.

  \<open>history\<close> is not program state. It is a log of what happened, kept so that the
  accumulators can be compared with it: each loss that a follower's copy trade settled
  with, each \<open>resetDailyLoss\<close>, each \<open>registerFollower\<close>.
\<close>

datatype hist_item = SettledLoss uid real | ResetAll | Registered uid

record copy_state =
  followers :: "uid \<rightharpoonup> uid list"
  dailyLoss :: "uid \<rightharpoonup> real"
  listeners :: "(uid \<times> nat) list"
  trades :: "trade list"
  proposals :: "proposal list"
  history :: "hist_item list"

text \<open>What the service asks of its collaborators: the User collection (\<open>findById\<close> may
  reject, may find nothing), whether creating a Trade document for a user rejects, and
  \<open>derivWSManager.isConnected\<close>.\<close>

datatype error = DbError | TypeError

record env =
  findUser :: "uid \<Rightarrow> error + user option"
  createFails :: "uid \<Rightarrow> bool"
  isConnected :: "uid \<Rightarrow> bool"

definition set_add :: "'a \<Rightarrow> 'a list \<Rightarrow> 'a list" where
  "set_add x xs = (if x \<in> set xs then xs else xs @ [x])"

definition registerFollower :: "uid \<Rightarrow> uid \<Rightarrow> copy_state \<Rightarrow> copy_state" where
  "registerFollower followerId leaderId st =
     st\<lparr>followers := (followers st)(leaderId \<mapsto>
            set_add followerId (case followers st leaderId of None \<Rightarrow> [] | Some fs \<Rightarrow> fs)),
        dailyLoss := (dailyLoss st)(followerId \<mapsto> 0),
        history := history st @ [Registered followerId]\<rparr>"

definition unregisterFollower :: "uid \<Rightarrow> uid \<Rightarrow> copy_state \<Rightarrow> copy_state" where
  "unregisterFollower followerId leaderId st =
     (case followers st leaderId of
        None \<Rightarrow> st
      | Some fs \<Rightarrow> st\<lparr>followers := (followers st)(leaderId \<mapsto> removeAll followerId fs)\<rparr>)"

definition resetDailyLoss :: "copy_state \<Rightarrow> copy_state" where
  "resetDailyLoss st = st\<lparr>dailyLoss := Map.empty, history := history st @ [ResetAll]\<rparr>"

text \<open>\<open>this.dailyLoss.get(followerId) || 0\<close>\<close>

definition currentLoss :: "copy_state \<Rightarrow> uid \<Rightarrow> real" where
  "currentLoss st followerId = (case dailyLoss st followerId of None \<Rightarrow> 0 | Some d \<Rightarrow> d)"

definition getFollowerCount :: "copy_state \<Rightarrow> uid \<Rightarrow> nat" where
  "getFollowerCount st leaderId = (case followers st leaderId of None \<Rightarrow> 0 | Some fs \<Rightarrow> length fs)"

subsection \<open>Replication\<close>

text \<open>\<open>dailyLoss >= follower.copyTradeSettings.maxDailyLoss\<close>\<close>

definition reachedMaxDailyLoss :: "real \<Rightarrow> user \<Rightarrow> bool" where
  "reachedMaxDailyLoss dl follower =
     (case maxDailyLoss (copySettings follower) of
        Unset \<Rightarrow> False
      | NullLimit \<Rightarrow> dl \<ge> 0
      | Limit m \<Rightarrow> dl \<ge> m)"

definition copyTradeRecord :: "nat \<Rightarrow> uid \<Rightarrow> user \<Rightarrow> trade \<Rightarrow> real \<Rightarrow> trade" where
  "copyTradeRecord new_id followerId leader originalTrade stake =
     \<lparr>trade_id = new_id,
      trade_userId = followerId,
      trade_botId = None,
      trade_symbol = trade_symbol originalTrade,
      contractType = contractType originalTrade,
      entryPrice = entryPrice originalTrade,
      trade_stake = stake,
      trade_duration = trade_duration originalTrade,
      trade_durationType = trade_durationType originalTrade,
      trade_status = ''pending'',
      contractId = None,
      payout = None,
      exitPrice = None,
      profitLoss = None,
      isCopyTrade = True,
      copyTradeFrom = Some (uid leader),
      originalTradeId = Some (trade_id originalTrade)\<rparr>"

text \<open>
  \<open>copyTradeToFollower\<close>. \<open>Inl\<close> is an exception leaving the function (its own
  \<open>catch\<close> logs and rethrows): the lookup of the follower rejects, the leader document is
  \<open>null\<close> when \<open>leader._id\<close> is read, or the creation of the Trade document rejects. All
  three happen before the function has changed anything.
\<close>

definition copyTradeToFollower ::
  "env \<Rightarrow> uid \<Rightarrow> user option \<Rightarrow> trade \<Rightarrow> copy_state \<Rightarrow> error + copy_state" where
  "copyTradeToFollower e followerId leader originalTrade st =
     (case findUser e followerId of
        Inl err \<Rightarrow> Inl err
      | Inr None \<Rightarrow> Inr st
      | Inr (Some follower) \<Rightarrow>
          if \<not> enabled (copySettings follower) then Inr st
          else (case leader of
                  None \<Rightarrow> Inl TypeError
                | Some ldr \<Rightarrow>
                    if uid ldr \<notin> set (following follower)
                    then Inr (unregisterFollower followerId (uid ldr) st)
                    else if reachedMaxDailyLoss (currentLoss st followerId) follower then Inr st
                    else if \<not> isConnected e followerId then Inr st
                    else (let stake = calculateFollowerStake follower (trade_stake originalTrade)
                          in if balance follower < stake then Inr st
                             else if createFails e followerId then Inl DbError
                             else (let copyTrade = copyTradeRecord (fresh_id (trades st))
                                                     followerId ldr originalTrade stake
                                   in Inr (st\<lparr>trades := trades st @ [copyTrade],
                                              proposals := proposals st @
                                                [\<lparr>p_user = followerId,
                                                  p_contractType = contractType originalTrade,
                                                  p_symbol = trade_symbol originalTrade,
                                                  p_stake = stake,
                                                  p_duration = trade_duration originalTrade,
                                                  p_durationType = trade_durationType originalTrade,
                                                  p_currency = currency follower\<rparr>],
                                              listeners := listeners st @
                                                [(followerId, trade_id copyTrade)]\<rparr>)))))"

text \<open>
  The loop \<open>for (const followerId of leaderFollowers)\<close> with its \<open>try\<close>/\<open>catch\<close> around
  each call. The iteration is over the live \<open>Set\<close>: an element deleted before it is
  reached is not visited (nothing is added during the loop). A caught exception is logged
  and the loop goes on with the state as it was.
\<close>

fun replicate_loop ::
  "env \<Rightarrow> uid \<Rightarrow> user option \<Rightarrow> trade \<Rightarrow> uid list \<Rightarrow> copy_state \<Rightarrow> copy_state" where
  "replicate_loop e leaderId leader originalTrade [] st = st"
| "replicate_loop e leaderId leader originalTrade (followerId # rest) st =
     (if followerId \<in> set (case followers st leaderId of None \<Rightarrow> [] | Some fs \<Rightarrow> fs)
      then (case copyTradeToFollower e followerId leader originalTrade st of
              Inl err \<Rightarrow> replicate_loop e leaderId leader originalTrade rest st
            | Inr st' \<Rightarrow> replicate_loop e leaderId leader originalTrade rest st')
      else replicate_loop e leaderId leader originalTrade rest st)"

text \<open>\<open>findOne({ userId: leaderId, contractId: ... })\<close> on the Trade collection.\<close>

definition findOriginalTrade :: "trade list \<Rightarrow> uid \<Rightarrow> nat \<Rightarrow> trade option" where
  "findOriginalTrade ts leaderId cid =
     find (\<lambda>t. trade_userId t = leaderId \<and> contractId t = Some cid) ts"

text \<open>\<open>replicateTrade(leaderId, buyDetails)\<close>; of \<open>buyDetails\<close> only \<open>contract_id\<close> is read.
  When the lookup of the leader rejects, the outer \<open>catch\<close> logs and nothing is copied.\<close>

definition replicateTrade :: "env \<Rightarrow> uid \<Rightarrow> nat \<Rightarrow> copy_state \<Rightarrow> copy_state" where
  "replicateTrade e leaderId buy_contract_id st =
     (case followers st leaderId of
        None \<Rightarrow> st
      | Some leaderFollowers \<Rightarrow>
          if leaderFollowers = [] then st
          else (case findOriginalTrade (trades st) leaderId buy_contract_id of
                  None \<Rightarrow> st
                | Some originalTrade \<Rightarrow>
                    (case findUser e leaderId of
                       Inl err \<Rightarrow> st
                     | Inr leader \<Rightarrow>
                         replicate_loop e leaderId leader originalTrade leaderFollowers st)))"

subsection \<open>Settlement listeners\<close>

text \<open>
  The handler that \<open>setupCopyTradeListener(followerId, tradeId)\<close> attaches, run on one
  \<open>contract_update\<close> event. It is run to completion before the next handler starts.
\<close>

definition contractUpdateHandler :: "uid \<Rightarrow> nat \<Rightarrow> uid \<Rightarrow> contract \<Rightarrow> copy_state \<Rightarrow> copy_state" where
  "contractUpdateHandler followerId tradeId userId c st =
     (if userId \<noteq> followerId then st
      else (case find (\<lambda>t. trade_id t = tradeId) (trades st) of
              None \<Rightarrow> st
            | Some t \<Rightarrow>
                if contractId t \<noteq> Some (contract_id c) then st
                else if finished c
                then (let st1 = (if c_status c = ''lost''
                                 then st\<lparr>dailyLoss := (dailyLoss st)(followerId \<mapsto>
                                            currentLoss st followerId + \<bar>profit c\<bar>),
                                         history := history st @
                                            [SettledLoss followerId \<bar>profit c\<bar>]\<rparr>
                                 else st)
                      in st1\<lparr>listeners := remove1 (followerId, tradeId) (listeners st1)\<rparr>)
                else st))"

text \<open>Emitting \<open>contract_update\<close> calls the handlers attached at that moment, in the order
  of their attachment.\<close>

definition emit_contract_update :: "uid \<Rightarrow> contract \<Rightarrow> copy_state \<Rightarrow> copy_state" where
  "emit_contract_update userId c st =
     foldl (\<lambda>s (followerId, tradeId). contractUpdateHandler followerId tradeId userId c s)
       st (listeners st)"

text \<open>
  Everything that can happen to the service: the calls of its public methods, the two
  events it listens to, and a write to the Trade collection by another component (the
  service itself never stores the venue's contract id on a copy trade).
\<close>

datatype copy_event =
    RegisterFollower uid uid
  | UnregisterFollower uid uid
  | ResetDailyLoss
  | BuyConfirmed uid nat
  | ContractUpdate uid contract
  | StoreContractId nat nat

definition store_contract_id :: "nat \<Rightarrow> nat \<Rightarrow> trade list \<Rightarrow> trade list" where
  "store_contract_id tid cid ts =
     map (\<lambda>t. if trade_id t = tid then t\<lparr>contractId := Some cid\<rparr> else t) ts"

fun copy_step :: "env \<Rightarrow> copy_state \<Rightarrow> copy_event \<Rightarrow> copy_state" where
  "copy_step e st (RegisterFollower f l) = registerFollower f l st"
| "copy_step e st (UnregisterFollower f l) = unregisterFollower f l st"
| "copy_step e st ResetDailyLoss = resetDailyLoss st"
| "copy_step e st (BuyConfirmed l cid) = replicateTrade e l cid st"
| "copy_step e st (ContractUpdate u c) = emit_contract_update u c st"
| "copy_step e st (StoreContractId tid cid) = st\<lparr>trades := store_contract_id tid cid (trades st)\<rparr>"

definition copy_run :: "env \<Rightarrow> copy_state \<Rightarrow> copy_event list \<Rightarrow> copy_state" where
  "copy_run e st evs = foldl (copy_step e) st evs"

text \<open>The state the constructor leaves.\<close>

definition copy_init :: "trade list \<Rightarrow> copy_state" where
  "copy_init ts = \<lparr>followers = Map.empty, dailyLoss = Map.empty, listeners = [],
                   trades = ts, proposals = [], history = []\<rparr>"

text \<open>
  The sum of the losses that a follower's copy trades settled with since the last
  \<open>resetDailyLoss\<close>, read off the log; and the same sum when a \<open>registerFollower\<close> of that
  follower also counts as a reset.
\<close>

definition losses_since_reset :: "uid \<Rightarrow> hist_item list \<Rightarrow> real" where
  "losses_since_reset f h =
     foldl (\<lambda>acc item. case item of
                          SettledLoss g x \<Rightarrow> if g = f then acc + x else acc
                        | ResetAll \<Rightarrow> 0
                        | Registered g \<Rightarrow> acc) 0 h"

definition losses_since_reset_or_register :: "uid \<Rightarrow> hist_item list \<Rightarrow> real" where
  "losses_since_reset_or_register f h =
     foldl (\<lambda>acc item. case item of
                          SettledLoss g x \<Rightarrow> if g = f then acc + x else acc
                        | ResetAll \<Rightarrow> 0
                        | Registered g \<Rightarrow> if g = f then 0 else acc) 0 h"

subsection \<open>Reading the service\<close>

definition live_followers :: "copy_state \<Rightarrow> uid \<Rightarrow> uid list" where
  "live_followers st l = (case followers st l of None \<Rightarrow> [] | Some fs \<Rightarrow> fs)"

text \<open>
  A follower passes the gates of \<open>copyTradeToFollower\<close>: the follower document is found
  and has copy trading enabled, the leader document is there and among the leaders the
  follower follows, the daily loss is below the ceiling, the follower's session is
  authenticated, the balance covers the stake, and the Trade document can be created.
\<close>

definition passes_gates :: "env \<Rightarrow> copy_state \<Rightarrow> user option \<Rightarrow> trade \<Rightarrow> uid \<Rightarrow> bool" where
  "passes_gates e st leader originalTrade followerId =
     (case findUser e followerId of
        Inr (Some follower) \<Rightarrow>
          enabled (copySettings follower) \<and>
          (case leader of
             None \<Rightarrow> False
           | Some ldr \<Rightarrow>
               uid ldr \<in> set (following follower) \<and>
               \<not> reachedMaxDailyLoss (currentLoss st followerId) follower \<and>
               isConnected e followerId \<and>
               \<not> balance follower < calculateFollowerStake follower (trade_stake originalTrade) \<and>
               \<not> createFails e followerId)
      | _ \<Rightarrow> False)"

text \<open>
  The copy-trade records and proposal requests that the followers in a list are due, in
  the order of the list, the first record with the \<open>_id\<close> \<open>n\<close>: for each follower the
  record is tagged as a copy of the leader's trade, is pending, carries the stake that
  \<open>calculateFollowerStake\<close> gives for that follower, and the proposal asks for the same
  contract at that stake in the follower's currency.
\<close>

fun expected_copies ::
  "env \<Rightarrow> user option \<Rightarrow> trade \<Rightarrow> nat \<Rightarrow> uid list \<Rightarrow> (trade \<times> proposal) list" where
  "expected_copies e leader orig n [] = []"
| "expected_copies e leader orig n (f # fs) =
     (case (findUser e f, leader) of
        (Inr (Some follower), Some ldr) \<Rightarrow>
          (\<lparr>trade_id = n,
            trade_userId = f,
            trade_botId = None,
            trade_symbol = trade_symbol orig,
            contractType = contractType orig,
            entryPrice = entryPrice orig,
            trade_stake = calculateFollowerStake follower (trade_stake orig),
            trade_duration = trade_duration orig,
            trade_durationType = trade_durationType orig,
            trade_status = ''pending'',
            contractId = None,
            payout = None,
            exitPrice = None,
            profitLoss = None,
            isCopyTrade = True,
            copyTradeFrom = Some (uid ldr),
            originalTradeId = Some (trade_id orig)\<rparr>,
           \<lparr>p_user = f,
            p_contractType = contractType orig,
            p_symbol = trade_symbol orig,
            p_stake = calculateFollowerStake follower (trade_stake orig),
            p_duration = trade_duration orig,
            p_durationType = trade_durationType orig,
            p_currency = currency follower\<rparr>) # expected_copies e leader orig (Suc n) fs
      | _ \<Rightarrow> expected_copies e leader orig n fs)"

subsection \<open>A leader with three followers\<close>

text \<open>
  The settings are the ones the route \<open>followLeader\<close> stores by default: 10 per trade,
  2 percent, a daily loss ceiling of 100. Follower \<open>f1\<close> has copy trading disabled,
  follower \<open>f2\<close> has a balance of 5, below the stake of 10, follower \<open>f3\<close> has a balance of
  1000. The leader's trade carries the venue's contract id 7.
\<close>

definition follower_doc :: "uid \<Rightarrow> bool \<Rightarrow> real \<Rightarrow> uid list \<Rightarrow> user" where
  "follower_doc name en bal leaders =
     \<lparr>uid = name,
      copySettings = \<lparr>enabled = en, investmentPerTrade = Some 10, riskPercentage = Some 2,
                      maxDailyLoss = Limit 100\<rparr>,
      following = leaders, balance = bal, currency = ''USD''\<rparr>"

definition leader_doc :: "uid \<Rightarrow> user" where
  "leader_doc name =
     \<lparr>uid = name,
      copySettings = \<lparr>enabled = False, investmentPerTrade = None, riskPercentage = None,
                      maxDailyLoss = Unset\<rparr>,
      following = [], balance = 5000, currency = ''USD''\<rparr>"

definition leader_trade :: "nat \<Rightarrow> uid \<Rightarrow> nat \<Rightarrow> trade" where
  "leader_trade tid name cid =
     \<lparr>trade_id = tid, trade_userId = name, trade_botId = Some ''bot1'',
      trade_symbol = ''R_100'', contractType = ''CALL'', entryPrice = 100, trade_stake = 20,
      trade_duration = 5, trade_durationType = ''t'', trade_status = ''open'',
      contractId = Some cid, payout = Some 39, exitPrice = None, profitLoss = None,
      isCopyTrade = False, copyTradeFrom = None, originalTradeId = None\<rparr>"

definition scenario_env :: env where
  "scenario_env =
     \<lparr>findUser = (\<lambda>u. if u = ''leader'' then Inr (Some (leader_doc ''leader''))
                      else if u = ''f1'' then Inr (Some (follower_doc ''f1'' False 1000 [''leader'']))
                      else if u = ''f2'' then Inr (Some (follower_doc ''f2'' True 5 [''leader'']))
                      else if u = ''f3'' then Inr (Some (follower_doc ''f3'' True 1000 [''leader'']))
                      else if u = ''f4'' then Inl DbError
                      else Inr None),
      createFails = (\<lambda>u. False),
      isConnected = (\<lambda>u. True)\<rparr>"

definition scenario_state :: copy_state where
  "scenario_state =
     copy_run scenario_env (copy_init [leader_trade 0 ''leader'' 7])
       [RegisterFollower ''f1'' ''leader'', RegisterFollower ''f2'' ''leader'',
        RegisterFollower ''f3'' ''leader'']"

subsection \<open>A follower who reaches the daily loss ceiling\<close>

text \<open>
  Follower \<open>f3\<close> follows two leaders. The first leader's trade is copied, the copy is
  bought under contract 55 (the contract id is stored on the record by another
  component) and settles with a loss of 100, the follower's ceiling.
\<close>

definition lost_contract :: "nat \<Rightarrow> real \<Rightarrow> contract" where
  "lost_contract cid p =
     \<lparr>contract_id = cid, is_sold = True, c_status = ''lost'', profit = p, exit_spot = Some 99\<rparr>"

definition two_leader_env :: env where
  "two_leader_env =
     \<lparr>findUser = (\<lambda>u. if u = ''leader'' then Inr (Some (leader_doc ''leader''))
                      else if u = ''f3''
                      then Inr (Some (follower_doc ''f3'' True 1000 [''leader'', ''leader2'']))
                      else Inr None),
      createFails = (\<lambda>u. False),
      isConnected = (\<lambda>u. True)\<rparr>"

definition loss_events :: "copy_event list" where
  "loss_events =
     [RegisterFollower ''f3'' ''leader'', BuyConfirmed ''leader'' 7, StoreContractId 1 55,
      ContractUpdate ''f3'' (lost_contract 55 (- 100))]"

definition loss_state :: copy_state where
  "loss_state = copy_run two_leader_env (copy_init [leader_trade 0 ''leader'' 7]) loss_events"

text \<open>The predicate that the accumulators agree with the log.\<close>

definition ledger_ok :: "copy_state \<Rightarrow> bool" where
  "ledger_ok st = (\<forall>f. currentLoss st f = losses_since_reset_or_register f (history st))"

section \<open>DerivWebSocketManager\<close>

subsection \<open>Decoded frames\<close>

text \<open>
  The result of \<open>JSON.parse\<close>. An object is the list of its members; a decoded object
  has each key once. Reading a property of \<open>null\<close> throws; reading a property that an
  object does not have, or any named property of a number, string, boolean or array,
  gives \<open>undefined\<close>.
\<close>

datatype json =
    JNull
  | JBool bool
  | JNum real
  | JStr string
  | JArr "json list"
  | JObj "(string \<times> json) list"

fun truthy :: "json \<Rightarrow> bool" where
  "truthy JNull = False"
| "truthy (JBool b) = b"
| "truthy (JNum x) = (x \<noteq> 0)"
| "truthy (JStr s) = (s \<noteq> [])"
| "truthy (JArr xs) = True"
| "truthy (JObj kvs) = True"

fun get_prop :: "json \<Rightarrow> string \<Rightarrow> json option" where
  "get_prop (JObj kvs) k = map_of kvs k"
| "get_prop v k = None"

text \<open>\<open>if (message.key)\<close>: the property is there and truthy.\<close>

definition has_key :: "json \<Rightarrow> string \<Rightarrow> bool" where
  "has_key message k = (case get_prop message k of None \<Rightarrow> False | Some v \<Rightarrow> truthy v)"

subsection \<open>Outbound messages\<close>

datatype out_msg =
    Authorize string
  | BalanceSubscribe
  | PortfolioSubscribe
  | StatementRequest
  | TicksSubscribe string
  | Forget string
  | ProposalRequest proposal
  | BuyRequest string real
  | ContractSubscribe nat
  | Ping

text \<open>\<open>message.authorize\<close> is truthy: the message is \<open>{ authorize: token }\<close> with a
  non-empty token.\<close>

fun is_authorize :: "out_msg \<Rightarrow> bool" where
  "is_authorize (Authorize tok) = (tok \<noteq> [])"
| "is_authorize m = False"

subsection \<open>State\<close>

text \<open>
  A socket: whether its \<open>readyState\<close> is \<open>OPEN\<close>, and the messages handed to its
  \<open>send\<close>, oldest first (\<open>ws.send\<close> on an open socket is taken to succeed).
\<close>

record websocket =
  ready_open :: bool
  wire :: "out_msg list"

record connection =
  ws :: websocket
  token :: string
  isAuthenticated :: bool
  subscriptions :: "string list"
  messageQueue :: "out_msg list"
  lastPing :: nat

text \<open>An event given to \<open>emit\<close>: its name, the user and the payload.\<close>

datatype emitted = Emit (ev_name: string) (ev_user: uid) (ev_payload: json)

text \<open>
  \<open>emitted\<close> are the events raised so far, \<open>scheduled\<close> the \<open>setTimeout\<close> calls made so
  far (user and delay in milliseconds), \<open>opened\<close> the users for whom a \<open>new WebSocket\<close> was
  constructed, one entry per construction.
\<close>

record manager =
  connections :: "uid \<rightharpoonup> connection"
  reconnectAttempts :: "uid \<rightharpoonup> nat"
  emitted :: "emitted list"
  scheduled :: "(uid \<times> nat) list"
  opened :: "uid list"

definition maxReconnectAttempts :: nat where
  "maxReconnectAttempts = 5"

definition reconnectDelay :: nat where
  "reconnectDelay = 3000"

definition mgr_init :: manager where
  "mgr_init = \<lparr>connections = Map.empty, reconnectAttempts = Map.empty, emitted = [],
               scheduled = [], opened = []\<rparr>"

definition emit :: "string \<Rightarrow> uid \<Rightarrow> json \<Rightarrow> manager \<Rightarrow> manager" where
  "emit name userId payload m = m\<lparr>emitted := emitted m @ [Emit name userId payload]\<rparr>"

subsection \<open>Sending and the queue\<close>

definition send :: "uid \<Rightarrow> out_msg \<Rightarrow> manager \<Rightarrow> manager \<times> bool" where
  "send userId message m =
     (case connections m userId of
        None \<Rightarrow> (m, False)
      | Some c \<Rightarrow>
          if \<not> isAuthenticated c \<and> \<not> is_authorize message
          then (m\<lparr>connections := (connections m)(userId \<mapsto>
                     c\<lparr>messageQueue := messageQueue c @ [message]\<rparr>)\<rparr>, False)
          else if ready_open (ws c)
          then (m\<lparr>connections := (connections m)(userId \<mapsto>
                     c\<lparr>ws := (ws c)\<lparr>wire := wire (ws c) @ [message]\<rparr>\<rparr>)\<rparr>, True)
          else (m\<lparr>connections := (connections m)(userId \<mapsto>
                     c\<lparr>messageQueue := messageQueue c @ [message]\<rparr>)\<rparr>, False))"

text \<open>
  The loop of \<open>processMessageQueue\<close>: while the queue is not empty, take its first
  message and \<open>send\<close> it. On a socket that is not open \<open>send\<close> puts the message back at
  the end of the queue and the loop does not end; then the result is \<open>None\<close>.
\<close>

partial_function (option) drain_queue :: "uid \<Rightarrow> manager \<Rightarrow> manager option" where
  "drain_queue userId m =
     (case connections m userId of
        None \<Rightarrow> Some m
      | Some c \<Rightarrow>
          (case messageQueue c of
             [] \<Rightarrow> Some m
           | message # rest \<Rightarrow>
               drain_queue userId
                 (fst (send userId message
                    (m\<lparr>connections := (connections m)(userId \<mapsto> c\<lparr>messageQueue := rest\<rparr>)\<rparr>)))))"

definition processMessageQueue :: "uid \<Rightarrow> manager \<Rightarrow> manager option" where
  "processMessageQueue userId m =
     (case connections m userId of
        None \<Rightarrow> Some m
      | Some c \<Rightarrow> if \<not> isAuthenticated c then Some m else drain_queue userId m)"

definition subscribeToInitialData :: "uid \<Rightarrow> manager \<Rightarrow> manager" where
  "subscribeToInitialData userId m =
     fst (send userId StatementRequest
       (fst (send userId PortfolioSubscribe
         (fst (send userId BalanceSubscribe m)))))"

definition authenticate :: "uid \<Rightarrow> string \<Rightarrow> manager \<Rightarrow> manager" where
  "authenticate userId tok m = fst (send userId (Authorize tok) m)"

definition subscribeTicks :: "uid \<Rightarrow> string \<Rightarrow> manager \<Rightarrow> manager" where
  "subscribeTicks userId symbol m =
     (case connections m userId of
        None \<Rightarrow> m
      | Some c0 \<Rightarrow>
          (let m1 = fst (send userId (TicksSubscribe symbol) m)
           in (case connections m1 userId of
                 None \<Rightarrow> m1
               | Some c \<Rightarrow> m1\<lparr>connections := (connections m1)(userId \<mapsto>
                             c\<lparr>subscriptions := set_add (''ticks_'' @ symbol) (subscriptions c)\<rparr>)\<rparr>)))"

definition unsubscribeTicks :: "uid \<Rightarrow> string \<Rightarrow> manager \<Rightarrow> manager" where
  "unsubscribeTicks userId symbol m =
     (case connections m userId of
        None \<Rightarrow> m
      | Some c0 \<Rightarrow>
          (let m1 = fst (send userId (Forget symbol) m)
           in (case connections m1 userId of
                 None \<Rightarrow> m1
               | Some c \<Rightarrow> m1\<lparr>connections := (connections m1)(userId \<mapsto>
                             c\<lparr>subscriptions := removeAll (''ticks_'' @ symbol) (subscriptions c)\<rparr>)\<rparr>)))"

text \<open>\<open>currency || 'USD'\<close> and \<open>durationType || 't'\<close>: an empty string gets the default.\<close>

definition getProposal :: "uid \<Rightarrow> proposal \<Rightarrow> manager \<Rightarrow> manager" where
  "getProposal userId params m =
     fst (send userId
       (ProposalRequest (params\<lparr>p_currency := (if p_currency params = [] then ''USD''
                                                 else p_currency params),
                                p_durationType := (if p_durationType params = [] then ''t''
                                                   else p_durationType params)\<rparr>)) m)"

definition subscribeToContract :: "uid \<Rightarrow> nat \<Rightarrow> manager \<Rightarrow> manager" where
  "subscribeToContract userId cid m = fst (send userId (ContractSubscribe cid) m)"

subsection \<open>Inbound frames\<close>

text \<open>One \<open>if (message.key) this.emit(name, ...)\<close> of \<open>handleMessage\<close>.\<close>

definition emit_if :: "string \<Rightarrow> string \<Rightarrow> uid \<Rightarrow> json \<Rightarrow> manager \<Rightarrow> manager" where
  "emit_if key name userId message m =
     (case get_prop message key of
        None \<Rightarrow> m
      | Some v \<Rightarrow> if truthy v then emit name userId v m else m)"

definition set_authenticated :: "uid \<Rightarrow> manager \<Rightarrow> manager" where
  "set_authenticated userId m =
     (case connections m userId of
        None \<Rightarrow> m
      | Some c \<Rightarrow> m\<lparr>connections := (connections m)(userId \<mapsto> c\<lparr>isAuthenticated := True\<rparr>)\<rparr>)"

definition set_lastPing :: "uid \<Rightarrow> nat \<Rightarrow> manager \<Rightarrow> manager" where
  "set_lastPing userId now m =
     (case connections m userId of
        None \<Rightarrow> m
      | Some c \<Rightarrow> m\<lparr>connections := (connections m)(userId \<mapsto> c\<lparr>lastPing := now\<rparr>)\<rparr>)"

text \<open>The part of \<open>handleMessage\<close> after the authorization branch.\<close>

definition dispatch_rest :: "uid \<Rightarrow> json \<Rightarrow> nat \<Rightarrow> manager \<Rightarrow> manager" where
  "dispatch_rest userId message now m =
     (let m1 = emit_if ''balance'' ''balance'' userId message m;
          m2 = emit_if ''portfolio'' ''portfolio'' userId message m1;
          m3 = emit_if ''statement'' ''statement'' userId message m2;
          m4 = emit_if ''tick'' ''tick'' userId message m3;
          m5 = emit_if ''proposal'' ''proposal'' userId message m4;
          m6 = emit_if ''buy'' ''buy'' userId message m5;
          m7 = emit_if ''proposal_open_contract'' ''contract_update'' userId message m6;
          m8 = emit_if ''error'' ''api_error'' userId message m7
      in if has_key message ''ping''
         then set_lastPing userId now (fst (send userId Ping m8))
         else m8)"

text \<open>
  \<open>handleMessage(userId, data)\<close> on a frame that \<open>JSON.parse\<close> has decoded; \<open>now\<close> is
  \<open>Date.now()\<close>. Without a connection for the user the frame is ignored. A decoded
  \<open>null\<close> makes the first property read throw; the \<open>catch\<close> logs it and nothing has
  changed. \<open>None\<close>: the queue loop does not end.
\<close>

definition handleMessage :: "uid \<Rightarrow> json \<Rightarrow> nat \<Rightarrow> manager \<Rightarrow> manager option" where
  "handleMessage userId message now m =
     (case connections m userId of
        None \<Rightarrow> Some m
      | Some c \<Rightarrow>
          if message = JNull then Some m
          else if has_key message ''authorize''
          then (case processMessageQueue userId
                       (emit ''authenticated'' userId (the (get_prop message ''authorize''))
                          (set_authenticated userId m)) of
                  None \<Rightarrow> None
                | Some m1 \<Rightarrow> Some (dispatch_rest userId message now (subscribeToInitialData userId m1)))
          else Some (dispatch_rest userId message now m))"

subsection \<open>Connecting, disconnecting, reconnecting\<close>

definition disconnect :: "uid \<Rightarrow> manager \<Rightarrow> manager" where
  "disconnect userId m =
     (case connections m userId of
        None \<Rightarrow> m
      | Some c \<Rightarrow> m\<lparr>connections := (connections m)(userId := None),
                     reconnectAttempts := (reconnectAttempts m)(userId := None)\<rparr>)"

text \<open>\<open>connect(userId, derivToken)\<close>; \<open>now\<close> is \<open>Date.now()\<close>. The new socket is not yet
  open and nothing has been sent on it.\<close>

definition connect :: "uid \<Rightarrow> string \<Rightarrow> nat \<Rightarrow> manager \<Rightarrow> manager" where
  "connect userId derivToken now m =
     (let m1 = (if connections m userId \<noteq> None then disconnect userId m else m);
          connectionData = \<lparr>ws = \<lparr>ready_open = False, wire = []\<rparr>,
                            token = derivToken,
                            isAuthenticated = False,
                            subscriptions = [],
                            messageQueue = [],
                            lastPing = now\<rparr>
      in m1\<lparr>connections := (connections m1)(userId \<mapsto> connectionData),
            reconnectAttempts := (reconnectAttempts m1)(userId \<mapsto> 0),
            opened := opened m1 @ [userId]\<rparr>)"

definition handleDisconnect :: "uid \<Rightarrow> manager \<Rightarrow> manager" where
  "handleDisconnect userId m =
     (let attempts = (case reconnectAttempts m userId of None \<Rightarrow> 0 | Some a \<Rightarrow> a)
      in if attempts < maxReconnectAttempts
         then m\<lparr>reconnectAttempts := (reconnectAttempts m)(userId \<mapsto> attempts + 1),
                scheduled := scheduled m @ [(userId, reconnectDelay * (attempts + 1))]\<rparr>
         else (emit ''max_reconnect_failed'' userId JNull m)
                \<lparr>connections := (connections m)(userId := None),
                 reconnectAttempts := (reconnectAttempts m)(userId := None)\<rparr>)"

text \<open>The callback that \<open>handleDisconnect\<close> hands to \<open>setTimeout\<close>.\<close>

definition reconnect_timer :: "uid \<Rightarrow> nat \<Rightarrow> manager \<Rightarrow> manager" where
  "reconnect_timer userId now m =
     (case connections m userId of
        None \<Rightarrow> m
      | Some c \<Rightarrow> if token c \<noteq> [] then connect userId (token c) now m else m)"

definition set_ready :: "uid \<Rightarrow> bool \<Rightarrow> manager \<Rightarrow> manager" where
  "set_ready userId b m =
     (case connections m userId of
        None \<Rightarrow> m
      | Some c \<Rightarrow> m\<lparr>connections := (connections m)(userId \<mapsto>
                       c\<lparr>ws := (ws c)\<lparr>ready_open := b\<rparr>\<rparr>)\<rparr>)"

text \<open>
  What can happen to the manager for one user: calls of \<open>connect\<close>, \<open>subscribeTicks\<close> and
  \<open>send\<close>, the socket events \<open>open\<close>, \<open>close\<close> and \<open>message\<close> of the user's current socket,
  and a reconnect timer firing.
\<close>

datatype mgr_event =
    Connect uid string nat
  | SubscribeTicks uid string
  | SendMsg uid out_msg
  | SocketOpened uid
  | SocketClosed uid
  | Frame uid json nat
  | TimerFired uid nat

fun mgr_step :: "manager \<Rightarrow> mgr_event \<Rightarrow> manager option" where
  "mgr_step m (Connect u tok now) = Some (connect u tok now m)"
| "mgr_step m (SubscribeTicks u symbol) = Some (subscribeTicks u symbol m)"
| "mgr_step m (SendMsg u msg) = Some (fst (send u msg m))"
| "mgr_step m (SocketOpened u) =
     (case connections m u of
        None \<Rightarrow> Some m
      | Some c \<Rightarrow> Some (authenticate u (token c) (set_ready u True m)))"
| "mgr_step m (SocketClosed u) = Some (handleDisconnect u (set_ready u False m))"
| "mgr_step m (Frame u message now) = handleMessage u message now m"
| "mgr_step m (TimerFired u now) = Some (reconnect_timer u now m)"

fun mgr_run :: "manager \<Rightarrow> mgr_event list \<Rightarrow> manager option" where
  "mgr_run m [] = Some m"
| "mgr_run m (ev # evs) = (case mgr_step m ev of None \<Rightarrow> None | Some m' \<Rightarrow> mgr_run m' evs)"

text \<open>The keys that \<open>handleMessage\<close> turns into events, with the event names, in the
  order of the source.\<close>

definition event_table :: "(string \<times> string) list" where
  "event_table =
     [(''authorize'', ''authenticated''), (''balance'', ''balance''),
      (''portfolio'', ''portfolio''), (''statement'', ''statement''), (''tick'', ''tick''),
      (''proposal'', ''proposal''), (''buy'', ''buy''),
      (''proposal_open_contract'', ''contract_update''), (''error'', ''api_error'')]"

definition subscriptions_of :: "manager \<Rightarrow> uid \<Rightarrow> string list" where
  "subscriptions_of m u = (case connections m u of None \<Rightarrow> [] | Some c \<Rightarrow> subscriptions c)"

definition wire_of :: "manager \<Rightarrow> uid \<Rightarrow> out_msg list" where
  "wire_of m u = (case connections m u of None \<Rightarrow> [] | Some c \<Rightarrow> wire (ws c))"

definition queue_of :: "manager \<Rightarrow> uid \<Rightarrow> out_msg list" where
  "queue_of m u = (case connections m u of None \<Rightarrow> [] | Some c \<Rightarrow> messageQueue c)"

text \<open>The events that the table prescribes for a frame: one for each listed key that the
  frame has with a truthy value, in the order of the table.\<close>

definition events_for :: "uid \<Rightarrow> json \<Rightarrow> (string \<times> string) list \<Rightarrow> emitted list" where
  "events_for u frame table =
     map (\<lambda>(key, name). Emit name u (the (get_prop frame key)))
       (filter (\<lambda>(key, name). has_key frame key) table)"

definition session_view :: "manager option \<Rightarrow> (string list \<times> out_msg list \<times> out_msg list) option" where
  "session_view r =
     (case r of None \<Rightarrow> None
      | Some m \<Rightarrow> Some (subscriptions_of m ''u'', wire_of m ''u'', queue_of m ''u''))"

definition event_names :: "manager option \<Rightarrow> string list option" where
  "event_names r = (case r of None \<Rightarrow> None | Some m \<Rightarrow> Some (map ev_name (emitted m)))"

subsection \<open>A session that is closed and reconnects\<close>

text \<open>
  User \<open>u\<close> connects, is authenticated and subscribes to the ticks of \<open>R_100\<close>. Then the
  socket closes; while it is closed a contract subscription is sent (and queued); the
  reconnect timer fires, the new socket opens and is authenticated.
\<close>

definition authorize_frame :: json where
  "authorize_frame = JObj [(''authorize'', JObj [(''loginid'', JStr ''CR1'')])]"

definition session_events :: "mgr_event list" where
  "session_events =
     [Connect ''u'' ''tok'' 0, SocketOpened ''u'', Frame ''u'' authorize_frame 1,
      SubscribeTicks ''u'' ''R_100'']"

definition reconnect_events :: "mgr_event list" where
  "reconnect_events =
     [SocketClosed ''u'', SendMsg ''u'' (ContractSubscribe 55), TimerFired ''u'' 9,
      SocketOpened ''u'', Frame ''u'' authorize_frame 10]"

subsection \<open>A transport that closes after every connection attempt\<close>

definition failing_rounds :: "nat \<Rightarrow> mgr_event list" where
  "failing_rounds n =
     Connect ''u'' ''tok'' 0 # concat (replicate n [SocketClosed ''u'', TimerFired ''u'' 0])"

section \<open>BotExecutor\<close>

subsection \<open>Bot documents and execution contexts\<close>

text \<open>
  The Bot model is not among the sources at hand; a bot document carries the fields the
  executor reads. The trading hours, stored as \<open>'HH:MM'\<close> strings and split by the
  code, are kept as pairs of hour and minute. \<open>cfg_entryConditions\<close> says whether
  \<open>configuration.strategy.entryConditions\<close> is there.
\<close>

record tick =
  t_symbol :: string
  quote :: real
  epoch :: nat

record riskManagement =
  rm_maxDailyLoss :: "real option"
  rm_maxConsecutiveLosses :: "real option"

record tradingHours =
  th_enabled :: bool
  th_start :: "nat \<times> nat"
  th_end :: "nat \<times> nat"

record configuration =
  cfg_symbol :: string
  cfg_stake :: real
  cfg_duration :: nat
  cfg_durationType :: string
  cfg_riskManagement :: "riskManagement option"
  cfg_tradingHours :: "tradingHours option"
  cfg_entryConditions :: bool

record bot =
  bot_id :: string
  bot_type :: string
  configuration :: configuration

text \<open>The execution data of one active bot (\<open>botData\<close>). \<open>lastTradeTime\<close>, which is
  never written after the start, is left out.\<close>

record botData =
  bd_userId :: uid
  bd_bot :: bot
  isRunning :: bool
  currentTrade :: "trade option"
  bd_dailyLoss :: real
  consecutiveLosses :: nat
  tickBuffer :: "tick list"

datatype action = CALL | PUT | HOLD

record signal =
  action :: action
  confidence :: "real option"

definition hold :: signal where
  "hold = \<lparr>action = HOLD, confidence = None\<rparr>"

fun action_name :: "action \<Rightarrow> string" where
  "action_name CALL = ''CALL''"
| "action_name PUT = ''PUT''"
| "action_name HOLD = ''HOLD''"

record indicators =
  currentPrice :: real
  sma20 :: "real outcome"
  ema12 :: "real outcome"
  ema26 :: "real outcome"
  rsi :: "real outcome"
  ind_macd :: "macd option"
  bollinger :: "bands outcome"

subsection \<open>Gates, indicators and strategies\<close>

definition checkRiskManagement :: "botData \<Rightarrow> bot \<Rightarrow> bool" where
  "checkRiskManagement bd b =
     (case cfg_riskManagement (configuration b) of
        None \<Rightarrow> True
      | Some riskMgmt \<Rightarrow>
          if truthy_num (rm_maxDailyLoss riskMgmt) \<and>
             bd_dailyLoss bd \<ge> the (rm_maxDailyLoss riskMgmt) then False
          else if truthy_num (rm_maxConsecutiveLosses riskMgmt) \<and>
                  real (consecutiveLosses bd) \<ge> the (rm_maxConsecutiveLosses riskMgmt) then False
          else True)"

text \<open>\<open>now\<close> is the local time of day in minutes, \<open>getHours() * 60 + getMinutes()\<close>.\<close>

definition isWithinTradingHours :: "tradingHours \<Rightarrow> nat \<Rightarrow> bool" where
  "isWithinTradingHours th now =
     (let startTime = fst (th_start th) * 60 + snd (th_start th);
          endTime = fst (th_end th) * 60 + snd (th_end th)
      in now \<ge> startTime \<and> now \<le> endTime)"

definition calculateIndicators :: "tick list \<Rightarrow> indicators option" where
  "calculateIndicators buffer =
     (if length buffer < 20 then None
      else (let prices = map quote buffer;
                closePrices = slice_last 50 prices
            in Some \<lparr>currentPrice = last prices,
                     sma20 = calculateSMA closePrices 20,
                     ema12 = calculateEMA closePrices 12,
                     ema26 = calculateEMA closePrices 26,
                     rsi = calculateRSI closePrices 14,
                     ind_macd = calculateMACD closePrices,
                     bollinger = calculateBollingerBands closePrices 20 2\<rparr>))"

text \<open>The strategies test their inputs with \<open>!x\<close>: an indicator that is \<open>null\<close> or \<open>0\<close>
  gives HOLD.\<close>

definition scalperStrategy :: "indicators \<Rightarrow> signal" where
  "scalperStrategy ind =
     (case (rsi ind, bollinger ind) of
        (Value r, Value b) \<Rightarrow>
          if r = 0 then hold
          else if r < 30 \<and> currentPrice ind < lower b
          then \<lparr>action = CALL, confidence = Some 0.8\<rparr>
          else if r > 70 \<and> currentPrice ind > upper b
          then \<lparr>action = PUT, confidence = Some 0.8\<rparr>
          else hold
      | _ \<Rightarrow> hold)"

definition trendFollowerStrategy :: "indicators \<Rightarrow> signal" where
  "trendFollowerStrategy ind =
     (case (ema12 ind, ema26 ind, ind_macd ind) of
        (Value e12, Value e26, Some m) \<Rightarrow>
          if e12 = 0 \<or> e26 = 0 then hold
          else if e12 > e26 \<and> macd_line m > 0
          then \<lparr>action = CALL, confidence = Some 0.7\<rparr>
          else if e12 < e26 \<and> macd_line m < 0
          then \<lparr>action = PUT, confidence = Some 0.7\<rparr>
          else hold
      | _ \<Rightarrow> hold)"

definition swingStrategy :: "indicators \<Rightarrow> signal" where
  "swingStrategy ind =
     (case (rsi ind, sma20 ind) of
        (Value r, Value s) \<Rightarrow>
          if r = 0 \<or> s = 0 then hold
          else if currentPrice ind > s \<and> r > 45 \<and> r < 65
          then \<lparr>action = CALL, confidence = Some 0.6\<rparr>
          else if currentPrice ind < s \<and> r > 35 \<and> r < 55
          then \<lparr>action = PUT, confidence = Some 0.6\<rparr>
          else hold
      | _ \<Rightarrow> hold)"

definition evaluateCustomStrategy :: "indicators \<Rightarrow> signal" where
  "evaluateCustomStrategy ind = hold"

definition evaluateStrategy :: "bot \<Rightarrow> indicators option \<Rightarrow> signal" where
  "evaluateStrategy b indicators =
     (case indicators of
        None \<Rightarrow> hold
      | Some ind \<Rightarrow>
          if bot_type b = ''scalper'' \<or> bot_type b = ''elite_speedbot'' then scalperStrategy ind
          else if bot_type b = ''trend_follower'' then trendFollowerStrategy ind
          else if bot_type b = ''swing'' then swingStrategy ind
          else if cfg_entryConditions (configuration b) then evaluateCustomStrategy ind
          else hold)"

text \<open>
  \<open>evaluateTradeSignal\<close> up to its call of \<open>placeTrade\<close>: the signal with which a trade is
  to be placed, if any. All of it runs without interruption when a tick is handled.
\<close>

definition decide :: "botData \<Rightarrow> tick \<Rightarrow> nat \<Rightarrow> signal option" where
  "decide bd currentTick now =
     (if currentTrade bd \<noteq> None then None
      else (let b = bd_bot bd; config = configuration b
            in if \<not> checkRiskManagement bd b then None
               else if (case cfg_tradingHours config of
                          None \<Rightarrow> False
                        | Some th \<Rightarrow> th_enabled th \<and> \<not> isWithinTradingHours th now) then None
               else (let sig = evaluateStrategy b (calculateIndicators (tickBuffer bd))
                     in if action sig \<noteq> HOLD then Some sig else None)))"

text \<open>\<open>push\<close> followed by \<open>shift\<close> when the array has grown beyond its cap.\<close>

definition push_capped :: "nat \<Rightarrow> 'a \<Rightarrow> 'a list \<Rightarrow> 'a list" where
  "push_capped cap x xs = (let ys = xs @ [x] in if length ys > cap then tl ys else ys)"

text \<open>The Trade document that \<open>placeTrade\<close> creates (the snapshot of the indicators is
  left out) and the proposal it requests.\<close>

definition bot_trade :: "nat \<Rightarrow> botData \<Rightarrow> signal \<Rightarrow> tick \<Rightarrow> trade" where
  "bot_trade new_id bd sig currentTick =
     (let config = configuration (bd_bot bd)
      in \<lparr>trade_id = new_id,
          trade_userId = bd_userId bd,
          trade_botId = Some (bot_id (bd_bot bd)),
          trade_symbol = cfg_symbol config,
          contractType = action_name (action sig),
          entryPrice = quote currentTick,
          trade_stake = cfg_stake config,
          trade_duration = cfg_duration config,
          trade_durationType = cfg_durationType config,
          trade_status = ''pending'',
          contractId = None,
          payout = None,
          exitPrice = None,
          profitLoss = None,
          isCopyTrade = False,
          copyTradeFrom = None,
          originalTradeId = None\<rparr>)"

definition bot_proposal :: "botData \<Rightarrow> signal \<Rightarrow> proposal" where
  "bot_proposal bd sig =
     (let config = configuration (bd_bot bd)
      in \<lparr>p_user = bd_userId bd,
          p_contractType = action_name (action sig),
          p_symbol = cfg_symbol config,
          p_stake = cfg_stake config,
          p_duration = cfg_duration config,
          p_durationType = cfg_durationType config,
          p_currency = ''USD''\<rparr>)"

subsection \<open>One context under asynchronous delivery\<close>

text \<open>
  \<open>placeTrade\<close> is an \<open>async\<close> function: it runs until \<open>await create(...)\<close>, where it has
  asked the Trade collection for a new document, and goes on only when the collection
  has answered. In between the event loop delivers further events, among them the next
  tick. The state of one context under this delivery: the execution data, the Trade
  documents whose creation has been requested, the invocations of \<open>placeTrade\<close> that wait
  for their document (oldest first, each with its signal), and the proposals requested
  from the venue.
\<close>

record async_ctx =
  ctx :: botData
  created :: "trade list"
  awaiting :: "(trade \<times> signal) list"
  requested :: "proposal list"

datatype ctx_event = TickDelivered uid tick nat | CreateResolved

text \<open>
  A tick for the context: the body of the loop of \<open>handleTickUpdate\<close> and
  \<open>evaluateTradeSignal\<close>, up to the \<open>await\<close> in \<open>placeTrade\<close>. The answer of the
  collection: the rest of \<open>placeTrade\<close>, which requests the proposal and only then stores
  the trade in \<open>currentTrade\<close>.
\<close>

fun ctx_step :: "async_ctx \<Rightarrow> ctx_event \<Rightarrow> async_ctx" where
  "ctx_step st (TickDelivered userId t now) =
     (let bd = ctx st
      in if bd_userId bd = userId \<and> cfg_symbol (configuration (bd_bot bd)) = t_symbol t \<and>
            isRunning bd
         then (let bd1 = bd\<lparr>tickBuffer := push_capped 100 t (tickBuffer bd)\<rparr>
               in (case decide bd1 t now of
                     None \<Rightarrow> st\<lparr>ctx := bd1\<rparr>
                   | Some sig \<Rightarrow>
                       (let tr = bot_trade (fresh_id (created st)) bd1 sig t
                        in st\<lparr>ctx := bd1,
                              created := created st @ [tr],
                              awaiting := awaiting st @ [(tr, sig)]\<rparr>)))
         else st)"
| "ctx_step st CreateResolved =
     (case awaiting st of
        [] \<Rightarrow> st
      | (tr, sig) # rest \<Rightarrow>
          st\<lparr>requested := requested st @ [bot_proposal (ctx st) sig],
             ctx := (ctx st)\<lparr>currentTrade := Some tr\<rparr>,
             awaiting := rest\<rparr>)"

definition ctx_run :: "async_ctx \<Rightarrow> ctx_event list \<Rightarrow> async_ctx" where
  "ctx_run st evs = foldl ctx_step st evs"

text \<open>The context that \<open>startBot\<close> sets up.\<close>

definition fresh_botData :: "uid \<Rightarrow> bot \<Rightarrow> botData" where
  "fresh_botData userId b =
     \<lparr>bd_userId = userId, bd_bot = b, isRunning = True, currentTrade = None,
      bd_dailyLoss = 0, consecutiveLosses = 0, tickBuffer = []\<rparr>"

definition ctx_init :: "uid \<Rightarrow> bot \<Rightarrow> async_ctx" where
  "ctx_init userId b =
     \<lparr>ctx = fresh_botData userId b, created = [], awaiting = [], requested = []\<rparr>"

subsection \<open>A swing bot on a market that moves between 100 and 101\<close>

definition swing_bot :: bot where
  "swing_bot =
     \<lparr>bot_id = ''bot1'', bot_type = ''swing'',
      configuration = \<lparr>cfg_symbol = ''R_100'', cfg_stake = 10, cfg_duration = 5,
        cfg_durationType = ''t'',
        cfg_riskManagement = Some \<lparr>rm_maxDailyLoss = Some 50, rm_maxConsecutiveLosses = Some 3\<rparr>,
        cfg_tradingHours = None, cfg_entryConditions = False\<rparr>\<rparr>"

definition tick_at :: "real \<Rightarrow> tick" where
  "tick_at p = \<lparr>t_symbol = ''R_100'', quote = p, epoch = 0\<rparr>"

definition warmup_prices :: "real list" where
  "warmup_prices =
     [100, 101, 100, 101, 100, 101, 100, 101, 100, 101,
      100, 101, 100, 101, 100, 101, 100, 101, 100]"

definition warmed_up :: async_ctx where
  "warmed_up =
     ctx_run (ctx_init ''u'' swing_bot) (map (\<lambda>p. TickDelivered ''u'' (tick_at p) 0) warmup_prices)"

definition swing_ctx :: "real list \<Rightarrow> trade option \<Rightarrow> botData" where
  "swing_ctx ps ct =
     \<lparr>bd_userId = ''u'', bd_bot = swing_bot, isRunning = True, currentTrade = ct,
      bd_dailyLoss = 0, consecutiveLosses = 0, tickBuffer = map tick_at ps\<rparr>"

definition call_signal :: signal where
  "call_signal = \<lparr>action = CALL, confidence = Some 0.6\<rparr>"

text \<open>What is looked at in a context: the prices in its buffer, the \<open>_id\<close> of the trade in
  its slot, the \<open>_id\<close>s of the Trade documents created, the number of invocations still
  waiting, and the number of proposals requested.\<close>

definition ctx_view :: "async_ctx \<Rightarrow> real list \<times> nat option \<times> nat list \<times> nat \<times> nat" where
  "ctx_view st =
     (map quote (tickBuffer (ctx st)), map_option trade_id (currentTrade (ctx st)),
      map trade_id (created st), length (awaiting st), length (requested st))"

subsection \<open>The executor, one handler at a time\<close>

text \<open>
  The executor with all its contexts, each handler run to completion before the next
  event. \<open>activeBots\<close> is the \<open>Map\<close> from bot id to execution data, in insertion order.
  \<open>calls\<close> are the requests made to the session manager. The performance statistics
  that \<open>updateBotPerformance\<close> and \<open>updateUserStatistics\<close> write to the Bot and User
  collections are not part of this state.

  \<open>bot_history\<close> is not program state: it logs each start of a bot and each settlement
  that cleared the slot of a bot's context, with the status and the profit of the
  settled trade.
\<close>

datatype mgr_call =
    CallSubscribeTicks uid string
  | CallUnsubscribeTicks uid string
  | CallGetProposal proposal
  | CallSubscribeToContract uid nat

datatype bot_hist = BotStarted string | BotSettled string string real

record executor =
  activeBots :: "(string \<times> botData) list"
  tickData :: "string \<rightharpoonup> tick list"
  ex_trades :: "trade list"
  calls :: "mgr_call list"
  bot_history :: "bot_hist list"

definition exec_init :: executor where
  "exec_init = \<lparr>activeBots = [], tickData = Map.empty, ex_trades = [], calls = [],
                bot_history = []\<rparr>"

text \<open>\<open>Map.set\<close>: an existing key keeps its place, a new key goes to the end.\<close>

fun map_set :: "'k \<Rightarrow> 'v \<Rightarrow> ('k \<times> 'v) list \<Rightarrow> ('k \<times> 'v) list" where
  "map_set k v [] = [(k, v)]"
| "map_set k v ((k', v') # kvs) = (if k' = k then (k, v) # kvs else (k', v') # map_set k v kvs)"

definition map_delete :: "'k \<Rightarrow> ('k \<times> 'v) list \<Rightarrow> ('k \<times> 'v) list" where
  "map_delete k kvs = filter (\<lambda>kv. fst kv \<noteq> k) kvs"

text \<open>\<open>trade.save()\<close>: the document with that \<open>_id\<close> is replaced.\<close>

definition db_save :: "trade \<Rightarrow> trade list \<Rightarrow> trade list" where
  "db_save tr ts = map (\<lambda>t. if trade_id t = trade_id tr then tr else t) ts"

text \<open>\<open>startBot\<close> with the bot document that \<open>findById\<close> has returned.\<close>

definition startBot :: "string \<Rightarrow> uid \<Rightarrow> bot \<Rightarrow> executor \<Rightarrow> executor" where
  "startBot botId userId b e =
     e\<lparr>calls := calls e @ [CallSubscribeTicks userId (cfg_symbol (configuration b))],
       activeBots := map_set botId (fresh_botData userId b) (activeBots e),
       tickData := (if tickData e (cfg_symbol (configuration b)) = None
                    then (tickData e)(cfg_symbol (configuration b) \<mapsto> [])
                    else tickData e),
       bot_history := bot_history e @ [BotStarted botId]\<rparr>"

definition stopBot :: "string \<Rightarrow> executor \<Rightarrow> executor" where
  "stopBot botId e =
     (case map_of (activeBots e) botId of
        None \<Rightarrow> e
      | Some bd \<Rightarrow>
          e\<lparr>calls := calls e @
                [CallUnsubscribeTicks (bd_userId bd) (cfg_symbol (configuration (bd_bot bd)))],
            activeBots := map_delete botId (activeBots e)\<rparr>)"

definition pauseBot :: "string \<Rightarrow> executor \<Rightarrow> executor" where
  "pauseBot botId e =
     (case map_of (activeBots e) botId of
        None \<Rightarrow> e
      | Some bd \<Rightarrow> e\<lparr>activeBots := map_set botId (bd\<lparr>isRunning := False\<rparr>) (activeBots e)\<rparr>)"

definition resumeBot :: "string \<Rightarrow> executor \<Rightarrow> executor" where
  "resumeBot botId e =
     (case map_of (activeBots e) botId of
        None \<Rightarrow> e
      | Some bd \<Rightarrow> e\<lparr>activeBots := map_set botId (bd\<lparr>isRunning := True\<rparr>) (activeBots e)\<rparr>)"

text \<open>The body of the loop of \<open>handleTickUpdate\<close> for one entry of the map, with
  \<open>evaluateTradeSignal\<close> and \<open>placeTrade\<close> run to their end.\<close>

definition process_bot :: "uid \<Rightarrow> tick \<Rightarrow> nat \<Rightarrow> executor \<Rightarrow> string \<Rightarrow> executor" where
  "process_bot userId t now e botId =
     (case map_of (activeBots e) botId of
        None \<Rightarrow> e
      | Some bd \<Rightarrow>
          if bd_userId bd = userId \<and> cfg_symbol (configuration (bd_bot bd)) = t_symbol t \<and>
             isRunning bd
          then (let bd1 = bd\<lparr>tickBuffer := push_capped 100 t (tickBuffer bd)\<rparr>
                in (case decide bd1 t now of
                      None \<Rightarrow> e\<lparr>activeBots := map_set botId bd1 (activeBots e)\<rparr>
                    | Some sig \<Rightarrow>
                        (let tr = bot_trade (fresh_id (ex_trades e)) bd1 sig t
                         in e\<lparr>ex_trades := ex_trades e @ [tr],
                              calls := calls e @ [CallGetProposal (bot_proposal bd1 sig)],
                              activeBots := map_set botId (bd1\<lparr>currentTrade := Some tr\<rparr>)
                                              (activeBots e)\<rparr>)))
          else e)"

definition handleTickUpdate :: "uid \<Rightarrow> tick \<Rightarrow> nat \<Rightarrow> executor \<Rightarrow> executor" where
  "handleTickUpdate userId t now e =
     (let tickHistory = (case tickData e (t_symbol t) of None \<Rightarrow> [] | Some h \<Rightarrow> h);
          e1 = e\<lparr>tickData := (tickData e)(t_symbol t \<mapsto> push_capped 1000 t tickHistory)\<rparr>
      in foldl (process_bot userId t now) e1 (map fst (activeBots e1)))"

text \<open>\<open>handleBuyConfirmation\<close>: the first context of the user that has a trade in its slot
  gets the contract.\<close>

definition handleBuyConfirmation :: "uid \<Rightarrow> nat \<Rightarrow> real \<Rightarrow> executor \<Rightarrow> executor" where
  "handleBuyConfirmation userId cid pay e =
     (case find (\<lambda>kv. bd_userId (snd kv) = userId \<and> currentTrade (snd kv) \<noteq> None)
             (activeBots e) of
        None \<Rightarrow> e
      | Some (botId, bd) \<Rightarrow>
          (let tr = (the (currentTrade bd))\<lparr>contractId := Some cid, payout := Some pay,
                                            trade_status := ''open''\<rparr>
           in e\<lparr>ex_trades := db_save tr (ex_trades e),
                activeBots := map_set botId (bd\<lparr>currentTrade := Some tr\<rparr>) (activeBots e),
                calls := calls e @ [CallSubscribeToContract userId cid]\<rparr>))"

text \<open>The loop at the end of \<open>handleContractUpdate\<close>: the first context whose slot holds
  the settled trade is cleared and its risk counters are updated.\<close>

definition clear_slot :: "trade \<Rightarrow> executor \<Rightarrow> executor" where
  "clear_slot tr e =
     (case find (\<lambda>kv. case currentTrade (snd kv) of
                         None \<Rightarrow> False
                       | Some ct \<Rightarrow> trade_id ct = trade_id tr) (activeBots e) of
        None \<Rightarrow> e
      | Some (botId, bd) \<Rightarrow>
          (let pl = (case profitLoss tr of None \<Rightarrow> 0 | Some p \<Rightarrow> p);
               bd1 = bd\<lparr>currentTrade := None\<rparr>;
               bd2 = (if trade_status tr = ''lost''
                      then bd1\<lparr>bd_dailyLoss := bd_dailyLoss bd1 + \<bar>pl\<bar>,
                               consecutiveLosses := consecutiveLosses bd1 + 1\<rparr>
                      else bd1\<lparr>consecutiveLosses := 0\<rparr>)
           in e\<lparr>activeBots := map_set botId bd2 (activeBots e),
                bot_history := bot_history e @ [BotSettled botId (trade_status tr) pl]\<rparr>))"

definition handleContractUpdate :: "uid \<Rightarrow> contract \<Rightarrow> executor \<Rightarrow> executor" where
  "handleContractUpdate userId c e =
     (case find (\<lambda>t. contractId t = Some (contract_id c)) (ex_trades e) of
        None \<Rightarrow> e
      | Some t \<Rightarrow>
          if finished c
          then (let tr = t\<lparr>exitPrice := exit_spot c, trade_status := c_status c,
                           profitLoss := Some (profit c)\<rparr>
                in clear_slot tr (e\<lparr>ex_trades := db_save tr (ex_trades e)\<rparr>))
          else e)"

datatype exec_event =
    StartBot string uid bot
  | StopBot string
  | PauseBot string
  | ResumeBot string
  | TickEvent uid tick nat
  | BuyEvent uid nat real
  | ContractEvent uid contract

fun exec_step :: "executor \<Rightarrow> exec_event \<Rightarrow> executor" where
  "exec_step e (StartBot botId userId b) = startBot botId userId b e"
| "exec_step e (StopBot botId) = stopBot botId e"
| "exec_step e (PauseBot botId) = pauseBot botId e"
| "exec_step e (ResumeBot botId) = resumeBot botId e"
| "exec_step e (TickEvent userId t now) = handleTickUpdate userId t now e"
| "exec_step e (BuyEvent userId cid pay) = handleBuyConfirmation userId cid pay e"
| "exec_step e (ContractEvent userId c) = handleContractUpdate userId c e"

definition exec_run :: "executor \<Rightarrow> exec_event list \<Rightarrow> executor" where
  "exec_run e evs = foldl exec_step e evs"

text \<open>The sum of the loss magnitudes of the trades of a bot's context that settled as
  \<open>lost\<close> since the context was started, read off the log.\<close>

definition bot_losses_since_start :: "string \<Rightarrow> bot_hist list \<Rightarrow> real" where
  "bot_losses_since_start b h =
     foldl (\<lambda>acc item. case item of
                          BotStarted b' \<Rightarrow> if b' = b then 0 else acc
                        | BotSettled b' status pl \<Rightarrow>
                            if b' = b \<and> status = ''lost'' then acc + \<bar>pl\<bar> else acc) 0 h"

definition bot_ledger_ok :: "executor \<Rightarrow> bool" where
  "bot_ledger_ok e =
     (distinct (map fst (activeBots e)) \<and>
      (\<forall>b bd. map_of (activeBots e) b = Some bd \<longrightarrow>
          bd_dailyLoss bd = bot_losses_since_start b (bot_history e)))"

section \<open>Properties of the indicator library\<close>

lemma foldl_add_sum_list: "foldl (\<lambda>sum price. sum + f price) a xs = a + sum_list (map f xs)"
  for a :: real
  by (induction xs arbitrary: a) (simp_all add: algebra_simps)

lemma rsi_fold_increasing:
  "(\<And>i. i \<in> set is \<Longrightarrow> prices ! (i - 1) < prices ! i) \<Longrightarrow>
   snd (foldl (rsi_step prices) (g, l) is) = l"
  by (induction "is" arbitrary: g l) (simp_all add: rsi_step_def Let_def)

lemma rsi_fold_decreasing:
  "(\<And>i. i \<in> set is \<Longrightarrow> prices ! i < prices ! (i - 1)) \<Longrightarrow>
   fst (foldl (rsi_step prices) (g, l) is) = g \<and>
   l \<le> snd (foldl (rsi_step prices) (g, l) is) \<and>
   (is \<noteq> [] \<longrightarrow> l < snd (foldl (rsi_step prices) (g, l) is))"
proof (induction "is" arbitrary: g l)
  case Nil
  then show ?case by simp
next
  case (Cons i "is")
  have step: "rsi_step prices (g, l) i = (g, l + (prices ! (i - 1) - prices ! i))"
    using Cons.prems [of i] by (simp add: rsi_step_def Let_def)
  have pos: "0 < prices ! (i - 1) - prices ! i"
    using Cons.prems [of i] by simp
  have ih: "fst (foldl (rsi_step prices) (g, l + (prices ! (i - 1) - prices ! i)) is) = g \<and>
        l + (prices ! (i - 1) - prices ! i)
          \<le> snd (foldl (rsi_step prices) (g, l + (prices ! (i - 1) - prices ! i)) is)"
    using Cons.IH [of g "l + (prices ! (i - 1) - prices ! i)"] Cons.prems by simp
  show ?case using step pos ih by simp
qed

lemma window_indices:
  assumes "length prices = 15" "i \<in> set [length prices - 14 ..< length prices]"
  shows "i - 1 < i \<and> i < length prices"
  using assms by auto

text \<open>
  C8. For every window of 15 strictly increasing prices, \<open>calculateRSI\<close> with period 14
  returns 100 (the average loss is zero); for every window of 15 strictly decreasing
  prices it returns 0.
\<close>

theorem C8_rsi_monotone_window:
  "length prices = 15 \<Longrightarrow>
     (sorted_wrt (<) prices \<longrightarrow> calculateRSI prices 14 = Value 100) \<and>
     (sorted_wrt (>) prices \<longrightarrow> calculateRSI prices 14 = Value 0)"
proof (intro conjI impI)
  assume len: "length prices = 15" and inc: "sorted_wrt (<) prices"
  have "\<And>i. i \<in> set [length prices - 14 ..< length prices] \<Longrightarrow> prices ! (i - 1) < prices ! i"
    using window_indices [OF len] sorted_wrt_nth_less [OF inc] by blast
  then have "snd (foldl (rsi_step prices) (0, 0) [length prices - 14 ..< length prices]) = 0"
    by (rule rsi_fold_increasing)
  then show "calculateRSI prices 14 = Value 100"
    using len by (auto simp add: calculateRSI_def split: prod.splits)
next
  assume len: "length prices = 15" and dec: "sorted_wrt (>) prices"
  have down: "\<And>i. i \<in> set [length prices - 14 ..< length prices] \<Longrightarrow> prices ! i < prices ! (i - 1)"
    using window_indices [OF len] sorted_wrt_nth_less [OF dec] by blast
  have ne: "[length prices - 14 ..< length prices] \<noteq> []"
    using len by simp
  have g: "fst (foldl (rsi_step prices) (0, 0) [length prices - 14 ..< length prices]) = 0"
    and l: "0 < snd (foldl (rsi_step prices) (0, 0) [length prices - 14 ..< length prices])"
    using rsi_fold_decreasing [of "[length prices - 14 ..< length prices]" prices 0 0] down ne
    by blast+
  show "calculateRSI prices 14 = Value 0"
    using len g l by (auto simp add: calculateRSI_def split: prod.splits)
qed

theorem C8_rsi_monotone_window_witness:
  "calculateRSI [1, 2, 3, 4, 5, 6, 7, 8, 9, 10, 11, 12, 13, 14, 15] 14 = Value 100 \<and>
   calculateRSI [15, 14, 13, 12, 11, 10, 9, 8, 7, 6, 5, 4, 3, 2, 1] 14 = Value 0"
  using C8_rsi_monotone_window [of "[1, 2, 3, 4, 5, 6, 7, 8, 9, 10, 11, 12, 13, 14, 15]"]
        C8_rsi_monotone_window [of "[15, 14, 13, 12, 11, 10, 9, 8, 7, 6, 5, 4, 3, 2, 1]"]
  by simp

lemma length_slice_last: "0 < n \<Longrightarrow> n \<le> length xs \<Longrightarrow> length (slice_last n xs) = n"
  by (simp add: slice_last_def)

lemma calculateSMA_mean:
  "0 < n \<Longrightarrow> n \<le> length prices \<Longrightarrow> calculateSMA prices n = Value (mean (slice_last n prices))"
  using foldl_add_sum_list [of "\<lambda>x. x" 0 "slice_last n prices"]
  by (simp add: calculateSMA_def mean_def length_slice_last)

text \<open>
  Away from a zero mean the bands are as the specification describes them: their width
  is \<open>2 \<cdot> k\<close> times the population standard deviation of the last \<open>N\<close> prices.
\<close>

lemma bollinger_width_nonzero_mean:
  assumes "0 < N" "N \<le> length prices" "mean (slice_last N prices) \<noteq> 0"
  shows "\<exists>b. calculateBollingerBands prices N k = Value b \<and>
             upper b - lower b = 2 * k * population_sd (slice_last N prices)"
proof -
  let ?w = "slice_last N prices"
  have len: "length ?w = N" using assms by (simp add: length_slice_last)
  have var: "foldl (\<lambda>sum price. sum + (price - mean ?w)\<^sup>2) 0 ?w =
             sum_list (map (\<lambda>x. (x - mean ?w)\<^sup>2) ?w)"
    using foldl_add_sum_list [of "\<lambda>x. (x - mean ?w)\<^sup>2" 0 ?w] by simp
  show ?thesis
    using assms calculateSMA_mean [of N prices] var len
    by (simp add: calculateBollingerBands_def population_sd_def Let_def)
qed

text \<open>
  C9. The claim: for every price list of length at least the period \<open>N\<close> and every
  multiplier \<open>k\<close>, upper band minus lower band is \<open>2 \<cdot> k\<close> times the population standard
  deviation of the last \<open>N\<close> prices, whatever their mean. The code tests the mean for
  truthiness, so a window whose mean is \<open>0\<close> gets \<open>null\<close> and no bands at all: for the
  prices \<open>[-1, 1]\<close>, period 2 and multiplier 2 the standard deviation is 1 and the width
  should be 4, but the result is \<open>null\<close>.
\<close>

theorem C9_bollinger_zero_mean_returns_null:
  "calculateBollingerBands [-1, 1] 2 2 = Null \<and> 2 * 2 * population_sd [-1, 1] = 4"
  by (simp add: calculateBollingerBands_def calculateSMA_def slice_last_def
      population_sd_def mean_def)

text \<open>
  C6. \<open>calculateFollowerStake\<close> depends only on the follower's copy-trade settings, the
  follower's balance and the leader's stake. It returns \<open>investmentPerTrade\<close> when that is
  set, else \<open>balance \<cdot> riskPercentage / 100\<close> when \<open>riskPercentage\<close> is set, else the lesser
  of the leader's stake and 2% of the balance. A setting is set when it is present and
  not \<open>0\<close> (the code tests truthiness). For balance 1000, \<open>riskPercentage\<close> 5 and
  \<open>investmentPerTrade\<close> unset the stake is 50.
\<close>

theorem C6_follower_stake_policy:
  "(copySettings f = copySettings f' \<and> balance f = balance f' \<longrightarrow>
      calculateFollowerStake f s = calculateFollowerStake f' s) \<and>
   (investmentPerTrade (copySettings f) = Some a \<and> a \<noteq> 0 \<longrightarrow>
      calculateFollowerStake f s = a) \<and>
   (\<not> truthy_num (investmentPerTrade (copySettings f)) \<and>
    riskPercentage (copySettings f) = Some r \<and> r \<noteq> 0 \<longrightarrow>
      calculateFollowerStake f s = balance f * r / 100) \<and>
   (\<not> truthy_num (investmentPerTrade (copySettings f)) \<and>
    \<not> truthy_num (riskPercentage (copySettings f)) \<longrightarrow>
      calculateFollowerStake f s = min s (0.02 * balance f)) \<and>
   (balance f = 1000 \<and> riskPercentage (copySettings f) = Some 5 \<and>
    investmentPerTrade (copySettings f) = None \<longrightarrow>
      calculateFollowerStake f s = 50)"
  by (simp add: calculateFollowerStake_def truthy_num_def Let_def mult.commute)


theorem C6_follower_stake_policy_witness:
  "calculateFollowerStake
     \<lparr>uid = ''a'', copySettings = \<lparr>enabled = True, investmentPerTrade = Some 25,
        riskPercentage = Some 5, maxDailyLoss = Unset\<rparr>,
      following = [], balance = 1000, currency = ''USD''\<rparr> 10 = 25 \<and>
   calculateFollowerStake
     \<lparr>uid = ''b'', copySettings = \<lparr>enabled = True, investmentPerTrade = None,
        riskPercentage = Some 5, maxDailyLoss = Unset\<rparr>,
      following = [], balance = 1000, currency = ''USD''\<rparr> 10 = 50 \<and>
   calculateFollowerStake
     \<lparr>uid = ''c'', copySettings = \<lparr>enabled = True, investmentPerTrade = None,
        riskPercentage = None, maxDailyLoss = Unset\<rparr>,
      following = [], balance = 1000, currency = ''USD''\<rparr> 30 = 20"
  using
    C6_follower_stake_policy [where s = 10 and a = 25 and r = 5 and
      f = "\<lparr>uid = ''a'', copySettings = \<lparr>enabled = True, investmentPerTrade = Some 25,
              riskPercentage = Some 5, maxDailyLoss = Unset\<rparr>,
            following = [], balance = 1000, currency = ''USD''\<rparr>" and
      f' = "\<lparr>uid = ''z'', copySettings = \<lparr>enabled = True, investmentPerTrade = Some 25,
              riskPercentage = Some 5, maxDailyLoss = Unset\<rparr>,
            following = [''x''], balance = 1000, currency = ''EUR''\<rparr>"]
    C6_follower_stake_policy [where s = 10 and a = 25 and r = 5 and
      f = "\<lparr>uid = ''b'', copySettings = \<lparr>enabled = True, investmentPerTrade = None,
              riskPercentage = Some 5, maxDailyLoss = Unset\<rparr>,
            following = [], balance = 1000, currency = ''USD''\<rparr>" and
      f' = "\<lparr>uid = ''b'', copySettings = \<lparr>enabled = True, investmentPerTrade = None,
              riskPercentage = Some 5, maxDailyLoss = Unset\<rparr>,
            following = [], balance = 1000, currency = ''USD''\<rparr>"]
    C6_follower_stake_policy [where s = 30 and a = 25 and r = 5 and
      f = "\<lparr>uid = ''c'', copySettings = \<lparr>enabled = True, investmentPerTrade = None,
              riskPercentage = None, maxDailyLoss = Unset\<rparr>,
            following = [], balance = 1000, currency = ''USD''\<rparr>" and
      f' = "\<lparr>uid = ''c'', copySettings = \<lparr>enabled = True, investmentPerTrade = None,
              riskPercentage = None, maxDailyLoss = Unset\<rparr>,
            following = [], balance = 1000, currency = ''USD''\<rparr>"]
  by (simp add: truthy_num_def)


section \<open>Properties of the copy-trade service\<close>

lemma dailyLoss_unregister [simp]: "dailyLoss (unregisterFollower f l st) = dailyLoss st"
  by (simp add: unregisterFollower_def split: option.splits)

lemma trades_unregister [simp]: "trades (unregisterFollower f l st) = trades st"
  by (simp add: unregisterFollower_def split: option.splits)

lemma history_unregister [simp]: "history (unregisterFollower f l st) = history st"
  by (simp add: unregisterFollower_def split: option.splits)

lemma live_followers_unregister:
  "set (live_followers st leaderId) - {f} \<subseteq> set (live_followers (unregisterFollower f l st) leaderId)"
  by (auto simp: live_followers_def unregisterFollower_def split: option.splits)

lemma copyTradeToFollower_passes:
  assumes "passes_gates e st leader orig f"
  shows "\<exists>st'. copyTradeToFollower e f leader orig st = Inr st' \<and>
           map trade_userId (trades st') = map trade_userId (trades st) @ [f] \<and>
           dailyLoss st' = dailyLoss st \<and> followers st' = followers st"
  using assms unfolding copyTradeToFollower_def passes_gates_def
  by (auto simp: Let_def copyTradeRecord_def split: sum.splits option.splits)

lemma copyTradeToFollower_fails:
  assumes "\<not> passes_gates e st leader orig f"
  shows "case copyTradeToFollower e f leader orig st of
           Inl err \<Rightarrow> True
         | Inr st' \<Rightarrow> trades st' = trades st \<and> dailyLoss st' = dailyLoss st \<and>
             set (live_followers st leaderId) - {f} \<subseteq> set (live_followers st' leaderId)"
  using assms live_followers_unregister [where st = st and f = f and leaderId = leaderId]
  unfolding copyTradeToFollower_def passes_gates_def
  by (auto simp: Let_def split: sum.splits option.splits)

lemma passes_gates_cong:
  assumes "dailyLoss st' = dailyLoss st"
  shows "passes_gates e st' leader orig = passes_gates e st leader orig"
proof -
  have "\<And>f. currentLoss st' f = currentLoss st f"
    using assms by (simp add: currentLoss_def)
  then show ?thesis
    by (auto simp add: passes_gates_def fun_eq_iff split: sum.splits option.splits)
qed

text \<open>The loop gives a copy trade to exactly the followers that pass the gates, in the
  order of the set, whatever happens at the others.\<close>

lemma replicate_loop_owners:
  "distinct fs \<Longrightarrow> set fs \<subseteq> set (live_followers st leaderId) \<Longrightarrow>
   map trade_userId (trades (replicate_loop e leaderId leader orig fs st)) =
     map trade_userId (trades st) @ filter (passes_gates e st leader orig) fs"
proof (induction fs arbitrary: st)
  case Nil
  then show ?case by simp
next
  case (Cons f fs)
  have mem: "f \<in> set (case followers st leaderId of None \<Rightarrow> [] | Some fs \<Rightarrow> fs)"
    using Cons.prems by (simp add: live_followers_def)
  have rest: "set fs \<subseteq> set (live_followers st leaderId) - {f}"
    using Cons.prems by auto
  show ?case
  proof (cases "passes_gates e st leader orig f")
    case True
    from copyTradeToFollower_passes [OF True] obtain st' where
      r: "copyTradeToFollower e f leader orig st = Inr st'" and
      t: "map trade_userId (trades st') = map trade_userId (trades st) @ [f]" and
      d: "dailyLoss st' = dailyLoss st" and fo: "followers st' = followers st"
      by blast
    have sub: "set fs \<subseteq> set (live_followers st' leaderId)"
      using rest fo by (auto simp: live_followers_def)
    show ?thesis
      using Cons.IH [OF _ sub] Cons.prems(1) mem r t True passes_gates_cong [OF d]
      by simp
  next
    case False
    show ?thesis
    proof (cases "copyTradeToFollower e f leader orig st")
      case (Inl err)
      have sub: "set fs \<subseteq> set (live_followers st leaderId)" using rest by auto
      show ?thesis
        using Cons.IH [OF _ sub] Cons.prems(1) mem Inl False by simp
    next
      case (Inr st')
      from copyTradeToFollower_fails [OF False, of leaderId] Inr
      have t: "trades st' = trades st" and d: "dailyLoss st' = dailyLoss st"
        and l: "set (live_followers st leaderId) - {f} \<subseteq> set (live_followers st' leaderId)"
        by simp_all
      have sub: "set fs \<subseteq> set (live_followers st' leaderId)" using rest l by blast
      show ?thesis
        using Cons.IH [OF _ sub] Cons.prems(1) mem Inr t False passes_gates_cong [OF d]
        by simp
    qed
  qed
qed

lemma scenario_state_eval:
  "followers scenario_state = [''leader'' \<mapsto> [''f1'', ''f2'', ''f3'']] \<and>
   trades scenario_state = [leader_trade 0 ''leader'' 7] \<and>
   dailyLoss scenario_state = [''f1'' \<mapsto> 0, ''f2'' \<mapsto> 0, ''f3'' \<mapsto> 0]"
  by (simp add: scenario_state_def copy_run_def copy_init_def registerFollower_def set_add_def)

lemma scenario_gates:
  "filter (passes_gates scenario_env scenario_state (Some (leader_doc ''leader''))
            (leader_trade 0 ''leader'' 7)) [''f1'', ''f2'', ''f3''] = [''f3'']"
  by (simp add: passes_gates_def scenario_env_def follower_doc_def leader_doc_def
      leader_trade_def reachedMaxDailyLoss_def currentLoss_def scenario_state_eval
      calculateFollowerStake_def truthy_num_def)

lemma fresh_id_snoc: "fresh_id (ts @ [t]) = max (fresh_id ts) (Suc (trade_id t))"
  by (simp add: fresh_id_def)

lemma copyTradeToFollower_exact:
  assumes "passes_gates e st leader orig f"
  shows "\<exists>follower ldr. findUser e f = Inr (Some follower) \<and> leader = Some ldr \<and>
           copyTradeToFollower e f leader orig st =
             Inr (st\<lparr>trades := trades st @
                        map fst (expected_copies e leader orig (fresh_id (trades st)) [f]),
                      proposals := proposals st @
                        map snd (expected_copies e leader orig (fresh_id (trades st)) [f]),
                      listeners := listeners st @ [(f, fresh_id (trades st))]\<rparr>)"
  using assms unfolding copyTradeToFollower_def passes_gates_def
  by (auto simp: Let_def copyTradeRecord_def split: sum.splits option.splits)

lemma copyTradeToFollower_fails_rest:
  assumes "\<not> passes_gates e st leader orig f"
  shows "case copyTradeToFollower e f leader orig st of
           Inl err \<Rightarrow> True
         | Inr st' \<Rightarrow> proposals st' = proposals st \<and> listeners st' = listeners st"
  using assms unfolding copyTradeToFollower_def passes_gates_def
  by (auto simp: Let_def unregisterFollower_def split: sum.splits option.splits)

lemma replicate_loop_exact:
  "distinct fs \<Longrightarrow> set fs \<subseteq> set (live_followers st leaderId) \<Longrightarrow>
   trades (replicate_loop e leaderId leader orig fs st) =
     trades st @ map fst (expected_copies e leader orig (fresh_id (trades st))
                            (filter (passes_gates e st leader orig) fs)) \<and>
   proposals (replicate_loop e leaderId leader orig fs st) =
     proposals st @ map snd (expected_copies e leader orig (fresh_id (trades st))
                            (filter (passes_gates e st leader orig) fs)) \<and>
   listeners (replicate_loop e leaderId leader orig fs st) =
     listeners st @ map (\<lambda>tp. (trade_userId (fst tp), trade_id (fst tp)))
                      (expected_copies e leader orig (fresh_id (trades st))
                            (filter (passes_gates e st leader orig) fs))"
proof (induction fs arbitrary: st)
  case Nil
  then show ?case by simp
next
  case (Cons f fs)
  have mem: "f \<in> set (case followers st leaderId of None \<Rightarrow> [] | Some fs \<Rightarrow> fs)"
    using Cons.prems by (simp add: live_followers_def)
  have rest: "set fs \<subseteq> set (live_followers st leaderId) - {f}"
    using Cons.prems by auto
  have dist: "distinct fs" using Cons.prems by simp
  show ?case
  proof (cases "passes_gates e st leader orig f")
    case True
    define n where "n = fresh_id (trades st)"
    from copyTradeToFollower_exact [OF True] obtain follower ldr where
      fu: "findUser e f = Inr (Some follower)" and ld: "leader = Some ldr" and
      r0: "copyTradeToFollower e f leader orig st =
             Inr (st\<lparr>trades := trades st @ map fst (expected_copies e leader orig n [f]),
                      proposals := proposals st @ map snd (expected_copies e leader orig n [f]),
                      listeners := listeners st @ [(f, n)]\<rparr>)"
      unfolding n_def by blast
    obtain t p where tp: "expected_copies e leader orig n [f] = [(t, p)]"
      "trade_id t = n" "trade_userId t = f"
      using fu ld by simp
    define st' where "st' = st\<lparr>trades := trades st @ [t], proposals := proposals st @ [p],
                                listeners := listeners st @ [(f, n)]\<rparr>"
    have r: "copyTradeToFollower e f leader orig st = Inr st'"
      using r0 tp(1) by (simp add: st'_def)
    have tr: "trades st' = trades st @ [t]" "proposals st' = proposals st @ [p]"
      "listeners st' = listeners st @ [(f, n)]" "dailyLoss st' = dailyLoss st"
      "followers st' = followers st"
      by (simp_all add: st'_def)
    have fresh: "fresh_id (trades st') = Suc n"
      using tp(2) by (simp add: tr fresh_id_snoc n_def)
    have sub: "set fs \<subseteq> set (live_followers st' leaderId)"
      using rest tr(5) by (auto simp: live_followers_def)
    have pg: "passes_gates e st' leader orig = passes_gates e st leader orig"
      using tr(4) by (rule passes_gates_cong)
    have step: "replicate_loop e leaderId leader orig (f # fs) st =
                replicate_loop e leaderId leader orig fs st'"
      using mem r by simp
    have filt: "filter (passes_gates e st leader orig) (f # fs) =
                f # filter (passes_gates e st leader orig) fs"
      using True by simp
    have ex: "expected_copies e leader orig n (f # filter (passes_gates e st leader orig) fs) =
                (t, p) # expected_copies e leader orig (Suc n)
                           (filter (passes_gates e st leader orig) fs)"
      using tp(1) fu ld by simp
    show ?thesis
      unfolding step filt n_def [symmetric] ex
      using Cons.IH [OF dist sub] tp(2,3) fresh
      unfolding pg tr by simp
  next
    case False
    have filt: "filter (passes_gates e st leader orig) (f # fs) =
                filter (passes_gates e st leader orig) fs"
      using False by simp
    show ?thesis
    proof (cases "copyTradeToFollower e f leader orig st")
      case (Inl err)
      have sub: "set fs \<subseteq> set (live_followers st leaderId)" using rest by auto
      have step: "replicate_loop e leaderId leader orig (f # fs) st =
                replicate_loop e leaderId leader orig fs st"
        using mem Inl by simp
      show ?thesis unfolding step filt using Cons.IH [OF dist sub] by simp
    next
      case (Inr st')
      from copyTradeToFollower_fails [OF False, of leaderId] Inr
      have t: "trades st' = trades st" and d: "dailyLoss st' = dailyLoss st"
        and l: "set (live_followers st leaderId) - {f} \<subseteq> set (live_followers st' leaderId)"
        by simp_all
      from copyTradeToFollower_fails_rest [OF False] Inr
      have pl: "proposals st' = proposals st" "listeners st' = listeners st" by simp_all
      have sub: "set fs \<subseteq> set (live_followers st' leaderId)" using rest l by blast
      have step: "replicate_loop e leaderId leader orig (f # fs) st =
                replicate_loop e leaderId leader orig fs st'"
        using mem Inr by simp
      show ?thesis
        unfolding step filt using Cons.IH [OF dist sub] t pl passes_gates_cong [OF d]
        by simp
    qed
  qed
qed

lemma scenario_copies:
  "expected_copies scenario_env (Some (leader_doc ''leader'')) (leader_trade 0 ''leader'' 7)
     (fresh_id (trades scenario_state)) [''f3''] =
   [(\<lparr>trade_id = 1, trade_userId = ''f3'', trade_botId = None, trade_symbol = ''R_100'',
       contractType = ''CALL'', entryPrice = 100, trade_stake = 10, trade_duration = 5,
       trade_durationType = ''t'', trade_status = ''pending'', contractId = None,
       payout = None, exitPrice = None, profitLoss = None, isCopyTrade = True,
       copyTradeFrom = Some ''leader'', originalTradeId = Some 0\<rparr>,
     \<lparr>p_user = ''f3'', p_contractType = ''CALL'', p_symbol = ''R_100'', p_stake = 10,
       p_duration = 5, p_durationType = ''t'', p_currency = ''USD''\<rparr>)]"
  by (simp add: scenario_state_eval scenario_env_def follower_doc_def leader_doc_def
      leader_trade_def fresh_id_def calculateFollowerStake_def truthy_num_def)

text \<open>
  C5. On a leader's buy confirmation every registered follower is processed on its own:
  the followers that pass the gates each get their copy-trade record (tagged with the
  leader and the leader's trade, pending, at the follower's stake), their proposal
  request and their settlement listener, in the order of the set, whether the other
  followers return early, are unregistered or raise an exception. In particular a leader
  with three followers, one with copy trading disabled and one with a balance below the
  stake, gets exactly one copy-trade record and one proposal request, for the third
  follower.
\<close>

theorem C5_fan_out_isolated:
  "followers st leaderId = Some fs \<Longrightarrow> distinct fs \<Longrightarrow>
   findOriginalTrade (trades st) leaderId cid = Some orig \<Longrightarrow>
   findUser e leaderId = Inr leader \<Longrightarrow>
     map trade_userId (trades (replicateTrade e leaderId cid st)) =
       map trade_userId (trades st) @ filter (passes_gates e st leader orig) fs \<and>
     trades (replicateTrade e leaderId cid st) =
       trades st @ map fst (expected_copies e leader orig (fresh_id (trades st))
                              (filter (passes_gates e st leader orig) fs)) \<and>
     proposals (replicateTrade e leaderId cid st) =
       proposals st @ map snd (expected_copies e leader orig (fresh_id (trades st))
                                 (filter (passes_gates e st leader orig) fs)) \<and>
     listeners (replicateTrade e leaderId cid st) =
       listeners st @ map (\<lambda>tp. (trade_userId (fst tp), trade_id (fst tp)))
                        (expected_copies e leader orig (fresh_id (trades st))
                           (filter (passes_gates e st leader orig) fs)) \<and>
     map trade_userId (trades (replicateTrade scenario_env ''leader'' 7 scenario_state)) =
       map trade_userId (trades scenario_state) @ [''f3''] \<and>
     trades (replicateTrade scenario_env ''leader'' 7 scenario_state) =
       [leader_trade 0 ''leader'' 7,
        \<lparr>trade_id = 1, trade_userId = ''f3'', trade_botId = None, trade_symbol = ''R_100'',
         contractType = ''CALL'', entryPrice = 100, trade_stake = 10, trade_duration = 5,
         trade_durationType = ''t'', trade_status = ''pending'', contractId = None,
         payout = None, exitPrice = None, profitLoss = None, isCopyTrade = True,
         copyTradeFrom = Some ''leader'', originalTradeId = Some 0\<rparr>] \<and>
     proposals (replicateTrade scenario_env ''leader'' 7 scenario_state) =
       [\<lparr>p_user = ''f3'', p_contractType = ''CALL'', p_symbol = ''R_100'', p_stake = 10,
         p_duration = 5, p_durationType = ''t'', p_currency = ''USD''\<rparr>]"
proof -
  assume a: "followers st leaderId = Some fs" "distinct fs"
    "findOriginalTrade (trades st) leaderId cid = Some orig" "findUser e leaderId = Inr leader"
  have sub: "set fs \<subseteq> set (live_followers st leaderId)"
    using a(1) by (simp add: live_followers_def)
  have rt: "replicateTrade e leaderId cid st = replicate_loop e leaderId leader orig fs st"
    using a by (cases "fs = []") (simp_all add: replicateTrade_def)
  have owners: "map trade_userId (trades (replicateTrade e leaderId cid st)) =
       map trade_userId (trades st) @ filter (passes_gates e st leader orig) fs"
    unfolding rt using replicate_loop_owners [OF a(2) sub] .
  have exact: "trades (replicateTrade e leaderId cid st) =
       trades st @ map fst (expected_copies e leader orig (fresh_id (trades st))
                              (filter (passes_gates e st leader orig) fs)) \<and>
     proposals (replicateTrade e leaderId cid st) =
       proposals st @ map snd (expected_copies e leader orig (fresh_id (trades st))
                                 (filter (passes_gates e st leader orig) fs)) \<and>
     listeners (replicateTrade e leaderId cid st) =
       listeners st @ map (\<lambda>tp. (trade_userId (fst tp), trade_id (fst tp)))
                        (expected_copies e leader orig (fresh_id (trades st))
                           (filter (passes_gates e st leader orig) fs))"
    unfolding rt using replicate_loop_exact [OF a(2) sub] .
  have d: "distinct [''f1'', ''f2'', ''f3'']" by simp
  have s: "set [''f1'', ''f2'', ''f3''] \<subseteq> set (live_followers scenario_state ''leader'')"
    by (simp add: live_followers_def scenario_state_eval)
  have srt: "replicateTrade scenario_env ''leader'' 7 scenario_state =
      replicate_loop scenario_env ''leader'' (Some (leader_doc ''leader''))
        (leader_trade 0 ''leader'' 7) [''f1'', ''f2'', ''f3''] scenario_state"
    by (simp add: replicateTrade_def scenario_state_eval findOriginalTrade_def
        leader_trade_def scenario_env_def)
  have sc1: "map trade_userId (trades (replicateTrade scenario_env ''leader'' 7 scenario_state)) =
       map trade_userId (trades scenario_state) @ [''f3'']"
    unfolding srt replicate_loop_owners [OF d s] scenario_gates ..
  have sc2: "trades (replicateTrade scenario_env ''leader'' 7 scenario_state) =
       trades scenario_state @ map fst (expected_copies scenario_env (Some (leader_doc ''leader''))
          (leader_trade 0 ''leader'' 7) (fresh_id (trades scenario_state)) [''f3''])"
    and sc3: "proposals (replicateTrade scenario_env ''leader'' 7 scenario_state) =
       proposals scenario_state @ map snd (expected_copies scenario_env (Some (leader_doc ''leader''))
          (leader_trade 0 ''leader'' 7) (fresh_id (trades scenario_state)) [''f3''])"
    unfolding srt using replicate_loop_exact [OF d s, of scenario_env "Some (leader_doc ''leader'')"
        "leader_trade 0 ''leader'' 7"]
    unfolding scenario_gates by blast+
  have props: "proposals scenario_state = []"
    by (simp add: scenario_state_def copy_run_def copy_init_def registerFollower_def)
  have sc2': "trades (replicateTrade scenario_env ''leader'' 7 scenario_state) =
       [leader_trade 0 ''leader'' 7,
        \<lparr>trade_id = 1, trade_userId = ''f3'', trade_botId = None, trade_symbol = ''R_100'',
         contractType = ''CALL'', entryPrice = 100, trade_stake = 10, trade_duration = 5,
         trade_durationType = ''t'', trade_status = ''pending'', contractId = None,
         payout = None, exitPrice = None, profitLoss = None, isCopyTrade = True,
         copyTradeFrom = Some ''leader'', originalTradeId = Some 0\<rparr>]"
    unfolding sc2 scenario_copies by (simp add: scenario_state_eval)
  have sc3': "proposals (replicateTrade scenario_env ''leader'' 7 scenario_state) =
       [\<lparr>p_user = ''f3'', p_contractType = ''CALL'', p_symbol = ''R_100'', p_stake = 10,
         p_duration = 5, p_durationType = ''t'', p_currency = ''USD''\<rparr>]"
    unfolding sc3 scenario_copies props by simp
  show ?thesis using owners exact sc1 sc2' sc3' by blast
qed

theorem C5_fan_out_isolated_witness:
  "copyTradeToFollower scenario_env ''f4'' (Some (leader_doc ''leader''))
     (leader_trade 0 ''leader'' 7)
     (copy_run scenario_env (copy_init [leader_trade 0 ''leader'' 7])
        [RegisterFollower ''f4'' ''leader'', RegisterFollower ''f3'' ''leader'']) = Inl DbError \<and>
   map trade_userId (trades (replicateTrade scenario_env ''leader'' 7
     (copy_run scenario_env (copy_init [leader_trade 0 ''leader'' 7])
        [RegisterFollower ''f4'' ''leader'', RegisterFollower ''f3'' ''leader'']))) =
     [''leader'', ''f3''] \<and>
   trades (replicateTrade scenario_env ''leader'' 7
     (copy_run scenario_env (copy_init [leader_trade 0 ''leader'' 7])
        [RegisterFollower ''f4'' ''leader'', RegisterFollower ''f3'' ''leader''])) =
     [leader_trade 0 ''leader'' 7,
      \<lparr>trade_id = 1, trade_userId = ''f3'', trade_botId = None, trade_symbol = ''R_100'',
       contractType = ''CALL'', entryPrice = 100, trade_stake = 10, trade_duration = 5,
       trade_durationType = ''t'', trade_status = ''pending'', contractId = None,
       payout = None, exitPrice = None, profitLoss = None, isCopyTrade = True,
       copyTradeFrom = Some ''leader'', originalTradeId = Some 0\<rparr>] \<and>
   proposals (replicateTrade scenario_env ''leader'' 7
     (copy_run scenario_env (copy_init [leader_trade 0 ''leader'' 7])
        [RegisterFollower ''f4'' ''leader'', RegisterFollower ''f3'' ''leader''])) =
     [\<lparr>p_user = ''f3'', p_contractType = ''CALL'', p_symbol = ''R_100'', p_stake = 10,
       p_duration = 5, p_durationType = ''t'', p_currency = ''USD''\<rparr>]"
  using C5_fan_out_isolated [of
      "copy_run scenario_env (copy_init [leader_trade 0 ''leader'' 7])
        [RegisterFollower ''f4'' ''leader'', RegisterFollower ''f3'' ''leader'']"
      "''leader''" "[''f4'', ''f3'']" 7 "leader_trade 0 ''leader'' 7" scenario_env
      "Some (leader_doc ''leader'')"]
  by (simp add: copy_run_def copy_init_def registerFollower_def set_add_def
      findOriginalTrade_def leader_trade_def scenario_env_def passes_gates_def
      copyTradeToFollower_def follower_doc_def leader_doc_def reachedMaxDailyLoss_def
      currentLoss_def calculateFollowerStake_def truthy_num_def fresh_id_def)

lemma loss_state_eval:
  "dailyLoss loss_state = [''f3'' \<mapsto> 100] \<and> listeners loss_state = [] \<and>
   history loss_state = [Registered ''f3'', SettledLoss ''f3'' 100] \<and>
   map trade_userId (trades loss_state) = [''leader'', ''f3''] \<and>
   followers loss_state = [''leader'' \<mapsto> [''f3'']]"
  by (simp add: copy_run_def copy_init_def registerFollower_def set_add_def
      findOriginalTrade_def leader_trade_def two_leader_env_def
      copyTradeToFollower_def follower_doc_def leader_doc_def reachedMaxDailyLoss_def
      currentLoss_def calculateFollowerStake_def truthy_num_def loss_events_def loss_state_def
      replicateTrade_def emit_contract_update_def contractUpdateHandler_def
      store_contract_id_def copyTradeRecord_def fresh_id_def lost_contract_def finished_def
      Let_def)



subsection \<open>The accumulators of the followers and the log\<close>

lemma losses_snoc:
  "losses_since_reset_or_register f (h @ [item]) =
     (case item of
        SettledLoss g x \<Rightarrow> if g = f then losses_since_reset_or_register f h + x
                           else losses_since_reset_or_register f h
      | ResetAll \<Rightarrow> 0
      | Registered g \<Rightarrow> if g = f then 0 else losses_since_reset_or_register f h)"
  by (simp add: losses_since_reset_or_register_def split: hist_item.splits)

lemma ledger_ok_same:
  "dailyLoss st' = dailyLoss st \<Longrightarrow> history st' = history st \<Longrightarrow> ledger_ok st \<Longrightarrow> ledger_ok st'"
  by (simp add: ledger_ok_def currentLoss_def)

lemma copyTradeToFollower_keeps:
  "copyTradeToFollower e f leader orig st = Inr st' \<Longrightarrow>
   dailyLoss st' = dailyLoss st \<and> history st' = history st"
  unfolding copyTradeToFollower_def
  by (auto simp: Let_def split: sum.splits option.splits if_splits)

lemma replicate_loop_keeps:
  "dailyLoss (replicate_loop e l leader orig fs st) = dailyLoss st \<and>
   history (replicate_loop e l leader orig fs st) = history st"
proof (induction fs arbitrary: st)
  case Nil
  show ?case by simp
next
  case (Cons f fs)
  show ?case
  proof (cases "copyTradeToFollower e f leader orig st")
    case (Inl err)
    then show ?thesis using Cons.IH [of st] by simp
  next
    case (Inr st')
    then show ?thesis
      using Cons.IH [of st'] Cons.IH [of st] copyTradeToFollower_keeps [OF Inr] by simp
  qed
qed

lemma replicateTrade_keeps:
  "dailyLoss (replicateTrade e l cid st) = dailyLoss st \<and>
   history (replicateTrade e l cid st) = history st"
  by (simp add: replicateTrade_def replicate_loop_keeps split: option.splits sum.splits)

lemma handler_ledger_ok:
  "ledger_ok st \<Longrightarrow> ledger_ok (contractUpdateHandler f tid u c st)"
  by (auto simp add: ledger_ok_def contractUpdateHandler_def currentLoss_def losses_snoc Let_def
      split: option.splits)

lemma emit_ledger_ok:
  "ledger_ok st \<Longrightarrow>
   ledger_ok (foldl (\<lambda>s (followerId, tradeId). contractUpdateHandler followerId tradeId u c s) st ls)"
  by (induction ls arbitrary: st) (auto simp add: handler_ledger_ok)

lemma copy_step_ledger_ok: "ledger_ok st \<Longrightarrow> ledger_ok (copy_step e st ev)"
proof (cases ev)
  case (RegisterFollower f l)
  assume "ledger_ok st"
  then show ?thesis using RegisterFollower
    by (auto simp add: ledger_ok_def registerFollower_def currentLoss_def losses_snoc)
next
  case (UnregisterFollower f l)
  assume "ledger_ok st"
  then show ?thesis using UnregisterFollower by (simp add: ledger_ok_same)
next
  case ResetDailyLoss
  assume "ledger_ok st"
  then show ?thesis using ResetDailyLoss
    by (simp add: ledger_ok_def resetDailyLoss_def currentLoss_def losses_snoc)
next
  case (BuyConfirmed l cid)
  assume "ledger_ok st"
  then show ?thesis using BuyConfirmed replicateTrade_keeps [of e l cid st]
    by (simp add: ledger_ok_same)
next
  case (ContractUpdate u c)
  assume "ledger_ok st"
  then show ?thesis using ContractUpdate
    by (simp add: emit_contract_update_def emit_ledger_ok)
next
  case (StoreContractId tid cid)
  assume "ledger_ok st"
  then show ?thesis using StoreContractId by (simp add: ledger_ok_same)
qed

lemma copy_run_ledger_ok: "ledger_ok st \<Longrightarrow> ledger_ok (copy_run e st evs)"
  unfolding copy_run_def
  by (induction evs arbitrary: st) (simp_all add: copy_step_ledger_ok)

lemma follower_ledger:
  "currentLoss (copy_run e (copy_init ts) evs) f =
   losses_since_reset_or_register f (history (copy_run e (copy_init ts) evs))"
proof -
  have "ledger_ok (copy_init ts)"
    by (simp add: ledger_ok_def copy_init_def currentLoss_def losses_since_reset_or_register_def)
  then have "ledger_ok (copy_run e (copy_init ts) evs)" by (rule copy_run_ledger_ok)
  then show ?thesis by (simp add: ledger_ok_def)
qed

text \<open>
  C4. The claim: at every point a bot context's daily-loss accumulator is the sum of the
  loss magnitudes of its trades settled as \<open>lost\<close> since its last reset, and a follower's
  accumulator is the sum of the loss magnitudes of the follower's copy trades settled
  as losses since the last \<open>resetDailyLoss\<close> call. For the bot contexts this holds
  (\<open>bot_ledger\<close>); for the followers the accumulator is the sum since the last
  \<open>resetDailyLoss\<close> call or the follower's last registration (\<open>follower_ledger\<close>), because
  \<open>registerFollower\<close> sets the accumulator of the follower to \<open>0\<close>, also when the follower
  is registered already and has losses on the books: follower \<open>f3\<close> has lost 100 since
  the last reset and the accumulator says 100; after \<open>f3\<close> follows a second leader the
  accumulator says 0, with no \<open>resetDailyLoss\<close> call and the losses since the last one
  still 100.
\<close>

theorem C4_registration_erases_daily_loss:
  "currentLoss loss_state ''f3'' = 100 \<and>
   losses_since_reset ''f3'' (history loss_state) = 100 \<and>
   currentLoss (copy_step two_leader_env loss_state (RegisterFollower ''f3'' ''leader2'')) ''f3'' = 0 \<and>
   losses_since_reset ''f3''
     (history (copy_step two_leader_env loss_state (RegisterFollower ''f3'' ''leader2''))) = 100"
  by (simp add: loss_state_eval currentLoss_def losses_since_reset_def registerFollower_def)

section \<open>Properties of the session manager\<close>

lemmas mgr_eval = mgr_init_def connect_def disconnect_def set_ready_def authenticate_def send_def
  handleMessage_def has_key_def set_authenticated_def emit_def processMessageQueue_def
  subscribeToInitialData_def dispatch_rest_def emit_if_def subscribeTicks_def set_add_def
  handleDisconnect_def reconnect_timer_def maxReconnectAttempts_def reconnectDelay_def
  set_lastPing_def subscribeToContract_def Let_def drain_queue.simps

lemma emitted_send [simp]: "emitted (fst (send u msg m)) = emitted m"
  by (simp add: send_def split: option.splits)

lemma emitted_emit_if:
  "emitted (emit_if key name u frame m) =
     emitted m @ (if has_key frame key then [Emit name u (the (get_prop frame key))] else [])"
  by (simp add: emit_if_def has_key_def emit_def split: option.splits)

lemma emitted_set_lastPing [simp]: "emitted (set_lastPing u now m) = emitted m"
  by (simp add: set_lastPing_def split: option.splits)

lemma emitted_set_authenticated [simp]: "emitted (set_authenticated u m) = emitted m"
  by (simp add: set_authenticated_def split: option.splits)

lemma emitted_subscribeToInitialData [simp]: "emitted (subscribeToInitialData u m) = emitted m"
  by (simp add: subscribeToInitialData_def)

lemma emitted_dispatch_rest:
  "emitted (dispatch_rest u frame now m) = emitted m @ events_for u frame (tl event_table)"
  by (simp add: dispatch_rest_def Let_def emitted_emit_if events_for_def event_table_def)

lemma drain_queue_emitted:
  "drain_queue u m = Some m' \<Longrightarrow> emitted m' = emitted m"
proof (induction u m m' rule: drain_queue.raw_induct [rotated 1, consumes 1])
  case (1 drain u m m')
  then show ?case
    by (auto split: option.splits list.splits)
qed

lemma processMessageQueue_emitted:
  "processMessageQueue u m = Some m' \<Longrightarrow> emitted m' = emitted m"
  by (auto simp add: processMessageQueue_def drain_queue_emitted split: option.splits if_splits)

lemma events_for_table:
  "events_for u frame event_table =
     (if has_key frame ''authorize''
      then [Emit ''authenticated'' u (the (get_prop frame ''authorize''))] else []) @
     events_for u frame (tl event_table)"
  by (simp add: events_for_def event_table_def)

lemma handleMessage_emitted:
  assumes c: "connections m u = Some c" and h: "handleMessage u frame now m = Some m'"
  shows "emitted m' = emitted m @ events_for u frame event_table"
proof (cases "frame = JNull")
  case True
  then show ?thesis using c h by (simp add: handleMessage_def events_for_def has_key_def)
next
  case nn: False
  show ?thesis
  proof (cases "has_key frame ''authorize''")
    case False
    then have "m' = dispatch_rest u frame now m"
      using c h nn by (simp add: handleMessage_def)
    then show ?thesis
      using False by (simp add: emitted_dispatch_rest events_for_table)
  next
    case True
    let ?m0 = "emit ''authenticated'' u (the (get_prop frame ''authorize'')) (set_authenticated u m)"
    from c h nn True obtain m1 where
      p: "processMessageQueue u ?m0 = Some m1" and
      m': "m' = dispatch_rest u frame now (subscribeToInitialData u m1)"
      by (auto simp add: handleMessage_def split: option.splits)
    have "emitted m1 = emitted ?m0" using p by (rule processMessageQueue_emitted)
    then have "emitted m1 = emitted m @ [Emit ''authenticated'' u (the (get_prop frame ''authorize''))]"
      by (simp add: emit_def)
    then show ?thesis
      using True m' by (simp add: emitted_dispatch_rest events_for_table)
  qed
qed

lemma connections_emit [simp]: "connections (emit name u v m) = connections m"
  by (simp add: emit_def)

lemma connections_emit_if [simp]: "connections (emit_if key name u frame m) = connections m"
  by (simp add: emit_if_def split: option.splits)

text \<open>On an open socket of an authenticated session the queue loop ends, and it has
  handed the queued messages to the socket in their order.\<close>

lemma drain_queue_open:
  "connections m u = Some c \<Longrightarrow> isAuthenticated c \<Longrightarrow> ready_open (ws c) \<Longrightarrow>
   messageQueue c = q \<Longrightarrow>
   \<exists>m'. drain_queue u m = Some m' \<and>
        connections m' u =
          Some (c\<lparr>ws := (ws c)\<lparr>wire := wire (ws c) @ q\<rparr>, messageQueue := []\<rparr>)"
proof (induction q arbitrary: m c)
  case Nil
  then show ?case by (subst drain_queue.simps) simp
next
  case (Cons msg rest)
  let ?c1 = "c\<lparr>messageQueue := rest\<rparr>"
  let ?m1 = "m\<lparr>connections := (connections m)(u \<mapsto> ?c1)\<rparr>"
  let ?c2 = "?c1\<lparr>ws := (ws ?c1)\<lparr>wire := wire (ws ?c1) @ [msg]\<rparr>\<rparr>"
  let ?m2 = "fst (send u msg ?m1)"
  have c2: "connections ?m2 u = Some ?c2"
    using Cons.prems by (simp add: send_def)
  have unfold: "drain_queue u m = drain_queue u ?m2"
    using Cons.prems by (subst drain_queue.simps) simp
  from Cons.IH [OF c2] Cons.prems
  obtain m' where "drain_queue u ?m2 = Some m'"
    "connections m' u = Some (?c2\<lparr>ws := (ws ?c2)\<lparr>wire := wire (ws ?c2) @ rest\<rparr>, messageQueue := []\<rparr>)"
    by auto
  then show ?case using unfold by simp
qed

lemma initial_data_open:
  "connections m u = Some c \<Longrightarrow> isAuthenticated c \<Longrightarrow> ready_open (ws c) \<Longrightarrow>
   connections (subscribeToInitialData u m) u =
     Some (c\<lparr>ws := (ws c)\<lparr>wire := wire (ws c) @
        [BalanceSubscribe, PortfolioSubscribe, StatementRequest]\<rparr>\<rparr>)"
  by (simp add: subscribeToInitialData_def send_def)

lemma dispatch_rest_connection:
  "connections m u = Some c \<Longrightarrow> isAuthenticated c \<Longrightarrow> ready_open (ws c) \<Longrightarrow>
   connections (dispatch_rest u frame now m) u =
     Some (if has_key frame ''ping''
           then c\<lparr>ws := (ws c)\<lparr>wire := wire (ws c) @ [Ping]\<rparr>, lastPing := now\<rparr>
           else c)"
  by (simp add: dispatch_rest_def Let_def send_def set_lastPing_def)

lemma authorize_flushes_queue:
  assumes "connections m u = Some c" "ready_open (ws c)" "has_key frame ''authorize''"
  shows "\<exists>m'. handleMessage u frame now m = Some m' \<and>
           wire_of m' u = wire (ws c) @ messageQueue c @
              [BalanceSubscribe, PortfolioSubscribe, StatementRequest] @
              (if has_key frame ''ping'' then [Ping] else []) \<and>
           queue_of m' u = [] \<and> subscriptions_of m' u = subscriptions c"
proof -
  let ?c1 = "c\<lparr>isAuthenticated := True\<rparr>"
  let ?m1 = "emit ''authenticated'' u (the (get_prop frame ''authorize'')) (set_authenticated u m)"
  have c1: "connections ?m1 u = Some ?c1"
    using assms by (simp add: set_authenticated_def)
  from drain_queue_open [OF c1, of "messageQueue c"] assms
  obtain m2 where m2: "drain_queue u ?m1 = Some m2"
    "connections m2 u = Some (?c1\<lparr>ws := (ws ?c1)\<lparr>wire := wire (ws ?c1) @ messageQueue c\<rparr>,
        messageQueue := []\<rparr>)"
    by auto
  have pmq: "processMessageQueue u ?m1 = Some m2"
    using c1 m2 by (simp add: processMessageQueue_def)
  have nn: "frame \<noteq> JNull" using assms(3) by (auto simp: has_key_def)
  let ?c2 = "?c1\<lparr>ws := (ws ?c1)\<lparr>wire := wire (ws ?c1) @ messageQueue c\<rparr>, messageQueue := []\<rparr>"
  have m3: "connections (subscribeToInitialData u m2) u =
     Some (?c2\<lparr>ws := (ws ?c2)\<lparr>wire := wire (ws ?c2) @
        [BalanceSubscribe, PortfolioSubscribe, StatementRequest]\<rparr>\<rparr>)"
    using initial_data_open [OF m2(2)] assms by simp
  have hm: "handleMessage u frame now m =
      Some (dispatch_rest u frame now (subscribeToInitialData u m2))"
    using assms nn pmq by (simp add: handleMessage_def)
  show ?thesis
    using hm dispatch_rest_connection [OF m3, of frame now] assms
    by (simp add: wire_of_def queue_of_def subscriptions_of_def)
qed

lemma reconnect_is_fresh:
  assumes "connections m u = Some c" "token c \<noteq> []"
    "(case reconnectAttempts m u of None \<Rightarrow> 0 | Some a \<Rightarrow> a) < maxReconnectAttempts"
  shows "connections (reconnect_timer u now (handleDisconnect u (set_ready u False m))) u =
           Some \<lparr>ws = \<lparr>ready_open = False, wire = []\<rparr>, token = token c,
                 isAuthenticated = False, subscriptions = [], messageQueue = [],
                 lastPing = now\<rparr>"
  using assms
  by (simp add: set_ready_def handleDisconnect_def reconnect_timer_def connect_def
      disconnect_def Let_def)

text \<open>
  C2. The claim: after an unexpected close the reconnect path reinstates exactly the tick
  subscriptions that were active before the close, and honours the sends that were
  queued while the session was unavailable, in their order. The code keeps the
  subscription set up to date in \<open>subscribeTicks\<close> and queues a send made on a socket that
  is not open, but the reconnect timer goes through \<open>connect\<close>, which replaces the
  connection object by a new one with an empty subscription set and an empty queue. In
  the run below the session is subscribed to \<open>ticks_R_100\<close> before the close and a
  contract subscription is queued while the socket is closed; after the reconnect and
  the new authorization the subscription set is empty, no tick subscription has been
  sent on the new socket, and the queued contract subscription is neither sent nor
  queued.
\<close>

theorem C2_reconnect_drops_subscriptions:
  "session_view (mgr_run mgr_init session_events) =
     Some ([''ticks_R_100''],
           [Authorize ''tok'', BalanceSubscribe, PortfolioSubscribe, StatementRequest,
            TicksSubscribe ''R_100''], []) \<and>
   session_view (mgr_run mgr_init (session_events @ reconnect_events)) =
     Some ([], [Authorize ''tok'', BalanceSubscribe, PortfolioSubscribe, StatementRequest], [])"
  by (simp add: session_events_def reconnect_events_def authorize_frame_def session_view_def
      subscriptions_of_def wire_of_def queue_of_def mgr_eval)

subsection \<open>Reconnection attempts\<close>

lemma concat_replicate_Suc: "concat (replicate (Suc n) xs) = concat (replicate n xs) @ xs"
  by (induction n) simp_all

lemma mgr_run_append:
  "mgr_run m (xs @ ys) = (case mgr_run m xs of None \<Rightarrow> None | Some m' \<Rightarrow> mgr_run m' ys)"
  by (induction xs arbitrary: m) (simp_all split: option.splits)

lemma one_round:
  assumes "connections m ''u'' = Some c" "token c = ''tok''" "reconnectAttempts m ''u'' = Some 0"
  shows "\<exists>m' c'. mgr_run m [SocketClosed ''u'', TimerFired ''u'' 0] = Some m' \<and>
           connections m' ''u'' = Some c' \<and> token c' = ''tok'' \<and>
           reconnectAttempts m' ''u'' = Some 0 \<and>
           scheduled m' = scheduled m @ [(''u'', 3000)] \<and>
           opened m' = opened m @ [''u''] \<and> emitted m' = emitted m"
  using assms
  by (simp add: handleDisconnect_def set_ready_def reconnect_timer_def connect_def
      disconnect_def maxReconnectAttempts_def reconnectDelay_def Let_def)

text \<open>
  C3. The claim: for a session whose transport keeps closing, reconnection is attempted
  at most five times, with a delay that grows with the attempt count; then the session
  is removed, \<open>max_reconnect_failed\<close> is emitted once and nothing further is scheduled.
  The code: \<open>connect\<close> sets the attempt counter of the user back to \<open>0\<close>, and the reconnect
  timer reconnects through \<open>connect\<close>. So when the socket closes after each connection
  attempt, every close finds the counter at \<open>0\<close>: after \<open>n\<close> closes, for any \<open>n\<close>, there
  have been \<open>n\<close> reconnections, each scheduled with the base delay of 3000 ms, no
  \<open>max_reconnect_failed\<close> has been emitted, and the session is still in the map.
\<close>

theorem C3_reconnect_counter_is_reset:
  "\<exists>m c. mgr_run mgr_init (failing_rounds n) = Some m \<and>
         connections m ''u'' = Some c \<and> token c = ''tok'' \<and>
         reconnectAttempts m ''u'' = Some 0 \<and>
         scheduled m = replicate n (''u'', 3000) \<and>
         opened m = replicate (Suc n) ''u'' \<and> emitted m = []"
proof (induction n)
  case 0
  show ?case
    by (simp add: failing_rounds_def connect_def mgr_init_def Let_def)
next
  case (Suc n)
  then obtain m c where m: "mgr_run mgr_init (failing_rounds n) = Some m"
    "connections m ''u'' = Some c" "token c = ''tok''" "reconnectAttempts m ''u'' = Some 0"
    "scheduled m = replicate n (''u'', 3000)" "opened m = replicate (Suc n) ''u''" "emitted m = []"
    by blast
  have split: "failing_rounds (Suc n) = failing_rounds n @ [SocketClosed ''u'', TimerFired ''u'' 0]"
    unfolding failing_rounds_def concat_replicate_Suc by simp
  from one_round [OF m(2,3,4)] obtain m' c' where m':
    "mgr_run m [SocketClosed ''u'', TimerFired ''u'' 0] = Some m'"
    "connections m' ''u'' = Some c'" "token c' = ''tok''" "reconnectAttempts m' ''u'' = Some 0"
    "scheduled m' = scheduled m @ [(''u'', 3000)]" "opened m' = opened m @ [''u'']"
    "emitted m' = emitted m"
    by blast
  have "mgr_run mgr_init (failing_rounds (Suc n)) = Some m'"
    unfolding split mgr_run_append using m(1) m'(1) by simp
  moreover have "scheduled m' = replicate (Suc n) (''u'', 3000)"
    using m'(5) m(5) by (simp add: replicate_append_same)
  moreover have "opened m' = replicate (Suc (Suc n)) ''u''"
    using m'(6) m(6) by (simp add: replicate_append_same)
  ultimately show ?case using m' m(7) by auto
qed

subsection \<open>Dispatch of inbound frames\<close>

lemma emit_if_absent: "\<not> has_key frame key \<Longrightarrow> emit_if key name u frame m = m"
  by (simp add: emit_if_def has_key_def split: option.splits)

lemma dispatch_rest_absent:
  assumes "\<not> has_key frame ''balance''" "\<not> has_key frame ''portfolio''"
    "\<not> has_key frame ''statement''" "\<not> has_key frame ''tick''"
    "\<not> has_key frame ''proposal''" "\<not> has_key frame ''buy''"
    "\<not> has_key frame ''proposal_open_contract''" "\<not> has_key frame ''error''"
    "\<not> has_key frame ''ping''"
  shows "dispatch_rest u frame now m = m"
  unfolding dispatch_rest_def Let_def using assms by (simp add: emit_if_absent)

lemma no_keys_no_effect:
  assumes "\<forall>key \<in> set (''ping'' # map fst event_table). \<not> has_key frame key"
  shows "handleMessage u frame now m = Some m"
proof -
  have keys: "\<not> has_key frame ''authorize''" "\<not> has_key frame ''balance''"
    "\<not> has_key frame ''portfolio''"
    "\<not> has_key frame ''statement''" "\<not> has_key frame ''tick''"
    "\<not> has_key frame ''proposal''" "\<not> has_key frame ''buy''"
    "\<not> has_key frame ''proposal_open_contract''" "\<not> has_key frame ''error''"
    "\<not> has_key frame ''ping''"
    using assms unfolding event_table_def by simp_all
  have "dispatch_rest u frame now m = m"
    using keys by (intro dispatch_rest_absent)
  then show ?thesis
    using keys(1) by (simp add: handleMessage_def split: option.splits)
qed

lemma length_events_for:
  "length (events_for u frame table) = length (filter (has_key frame) (map fst table))"
  by (induction table) (auto simp add: events_for_def)

text \<open>
  C7, as claimed: the handler emits at most one typed event per decoded frame. A frame
  that carries the two keys \<open>balance\<close> and \<open>tick\<close> gets two events.
\<close>

theorem C7_two_keys_two_events:
  "event_names
     (handleMessage ''u''
        (JObj [(''balance'', JObj [(''balance'', JNum 10)]),
               (''tick'', JObj [(''quote'', JNum 1)])]) 0
        (connect ''u'' ''tok'' 0 mgr_init)) = Some [''balance'', ''tick'']"
  by (simp add: event_names_def mgr_eval)

text \<open>
  C7, amended. For every decoded frame of a user with a session the handler emits one
  event for each recognized top-level key that the frame carries with a truthy value,
  in the order authenticated, balance, portfolio, statement, tick, proposal, buy,
  contract_update, api_error: at most one event of each type, and at most one event
  when the frame carries at most one recognized key. The handler returns whenever the
  socket is open or the frame has no \<open>authorize\<close> key. A frame with none of the
  recognized keys (the nine above and \<open>ping\<close>) changes nothing and raises no error.
\<close>

theorem C7_one_event_per_recognized_key:
  "(connections m u = Some c \<and> handleMessage u frame now m = Some m' \<longrightarrow>
      emitted m' = emitted m @ events_for u frame event_table) \<and>
   length (events_for u frame event_table) =
      length (filter (has_key frame) (map fst event_table)) \<and>
   (connections m u = Some c \<and> (ready_open (ws c) \<or> \<not> has_key frame ''authorize'') \<longrightarrow>
      handleMessage u frame now m \<noteq> None) \<and>
   ((\<forall>key \<in> set (''ping'' # map fst event_table). \<not> has_key frame key) \<longrightarrow>
      handleMessage u frame now m = Some m)"
proof (intro conjI impI)
  assume "connections m u = Some c \<and> handleMessage u frame now m = Some m'"
  then show "emitted m' = emitted m @ events_for u frame event_table"
    using handleMessage_emitted by blast
next
  show "length (events_for u frame event_table) =
      length (filter (has_key frame) (map fst event_table))"
    by (rule length_events_for)
next
  assume a: "connections m u = Some c \<and> (ready_open (ws c) \<or> \<not> has_key frame ''authorize'')"
  show "handleMessage u frame now m \<noteq> None"
  proof (cases "has_key frame ''authorize''")
    case True
    then show ?thesis using a authorize_flushes_queue [of m u c frame now] by auto
  next
    case False
    then show ?thesis using a by (simp add: handleMessage_def)
  qed
next
  assume "\<forall>key \<in> set (''ping'' # map fst event_table). \<not> has_key frame key"
  then show "handleMessage u frame now m = Some m" by (rule no_keys_no_effect)
qed

theorem C7_one_event_per_recognized_key_witness:
  "event_names (handleMessage ''u'' (JObj [(''tick'', JObj [(''quote'', JNum 1)])]) 0
       (connect ''u'' ''tok'' 0 mgr_init)) = Some [''tick''] \<and>
   handleMessage ''u'' (JObj [(''msg_type'', JStr ''time''), (''time'', JNum 5)]) 0
       (connect ''u'' ''tok'' 0 mgr_init) = Some (connect ''u'' ''tok'' 0 mgr_init)"
  using
    C7_one_event_per_recognized_key [of "connect ''u'' ''tok'' 0 mgr_init" "''u''"
      "the (connections (connect ''u'' ''tok'' 0 mgr_init) ''u'')"
      "JObj [(''tick'', JObj [(''quote'', JNum 1)])]" 0
      "the (handleMessage ''u'' (JObj [(''tick'', JObj [(''quote'', JNum 1)])]) 0
         (connect ''u'' ''tok'' 0 mgr_init))"]
    C7_one_event_per_recognized_key [of "connect ''u'' ''tok'' 0 mgr_init" "''u''"
      "the (connections (connect ''u'' ''tok'' 0 mgr_init) ''u'')"
      "JObj [(''msg_type'', JStr ''time''), (''time'', JNum 5)]" 0
      "connect ''u'' ''tok'' 0 mgr_init"]
  by (simp add: event_names_def event_table_def events_for_def mgr_eval)

section \<open>Properties of the bot executor\<close>

lemma rsi1: "calculateRSI (warmup_prices @ [101]) 14 = Value 50"
  by (simp add: calculateRSI_def warmup_prices_def rsi_step_def Let_def)

lemma rsi2: "calculateRSI (warmup_prices @ [101, 102]) 14 = Value (400 / 7)"
  by (simp add: calculateRSI_def warmup_prices_def rsi_step_def Let_def)

lemma sma1: "calculateSMA (warmup_prices @ [101]) 20 = Value (201 / 2)"
  by (simp add: calculateSMA_def warmup_prices_def slice_last_def)

lemma sma2: "calculateSMA (warmup_prices @ [101, 102]) 20 = Value (503 / 5)"
  by (simp add: calculateSMA_def warmup_prices_def slice_last_def)

lemma quote_tick_at: "map quote (map tick_at ps) = ps"
  by (induction ps) (simp_all add: tick_at_def)

lemma calculateIndicators_ticks:
  assumes "20 \<le> length ps" "length ps \<le> 50"
  shows "calculateIndicators (map tick_at ps) =
     Some \<lparr>currentPrice = last ps,
            sma20 = calculateSMA ps 20,
            ema12 = calculateEMA ps 12,
            ema26 = calculateEMA ps 26,
            rsi = calculateRSI ps 14,
            ind_macd = calculateMACD ps,
            bollinger = calculateBollingerBands ps 20 2\<rparr>"
proof -
  have s: "slice_last 50 ps = ps" using assms by (simp add: slice_last_def)
  show ?thesis
    unfolding calculateIndicators_def Let_def quote_tick_at s
    using assms by simp
qed

lemma swing_signal1:
  "evaluateStrategy swing_bot (calculateIndicators (map tick_at (warmup_prices @ [101]))) =
     \<lparr>action = CALL, confidence = Some 0.6\<rparr>"
proof -
  have len: "length (warmup_prices @ [101]) = 20" by (simp add: warmup_prices_def)
  have ind: "calculateIndicators (map tick_at (warmup_prices @ [101])) =
     Some \<lparr>currentPrice = 101, sma20 = Value (201 / 2),
            ema12 = calculateEMA (warmup_prices @ [101]) 12,
            ema26 = calculateEMA (warmup_prices @ [101]) 26,
            rsi = Value 50,
            ind_macd = calculateMACD (warmup_prices @ [101]),
            bollinger = calculateBollingerBands (warmup_prices @ [101]) 20 2\<rparr>"
    using calculateIndicators_ticks [of "warmup_prices @ [101]"] len
    by (simp only: rsi1 sma1 last_snoc)
  show ?thesis
    unfolding ind evaluateStrategy_def
    by (simp add: swingStrategy_def swing_bot_def)
qed

lemma swing_signal2:
  "evaluateStrategy swing_bot (calculateIndicators (map tick_at (warmup_prices @ [101, 102]))) =
     \<lparr>action = CALL, confidence = Some 0.6\<rparr>"
proof -
  have len: "length (warmup_prices @ [101, 102]) = 21" by (simp add: warmup_prices_def)
  have l: "last (warmup_prices @ [101, 102]) = 102" by simp
  have ind: "calculateIndicators (map tick_at (warmup_prices @ [101, 102])) =
     Some \<lparr>currentPrice = 102, sma20 = Value (503 / 5),
            ema12 = calculateEMA (warmup_prices @ [101, 102]) 12,
            ema26 = calculateEMA (warmup_prices @ [101, 102]) 26,
            rsi = Value (400 / 7),
            ind_macd = calculateMACD (warmup_prices @ [101, 102]),
            bollinger = calculateBollingerBands (warmup_prices @ [101, 102]) 20 2\<rparr>"
    using calculateIndicators_ticks [of "warmup_prices @ [101, 102]"] len
    by (simp only: rsi2 sma2 l)
  show ?thesis
    unfolding ind evaluateStrategy_def
    by (simp add: swingStrategy_def swing_bot_def)
qed

lemma risk_ok: "checkRiskManagement (swing_ctx ps ct) swing_bot"
  by (simp add: checkRiskManagement_def swing_ctx_def swing_bot_def truthy_num_def)

lemma decide_swing:
  "decide (swing_ctx ps None) t now =
     (if action (evaluateStrategy swing_bot (calculateIndicators (map tick_at ps))) \<noteq> HOLD
      then Some (evaluateStrategy swing_bot (calculateIndicators (map tick_at ps))) else None)"
proof -
  have a: "currentTrade (swing_ctx ps None) = None" "bd_bot (swing_ctx ps None) = swing_bot"
    "tickBuffer (swing_ctx ps None) = map tick_at ps"
    by (simp_all add: swing_ctx_def)
  have b: "cfg_tradingHours (configuration swing_bot) = None"
    by (simp add: swing_bot_def)
  show ?thesis
    unfolding decide_def Let_def a b using risk_ok [of ps None] by simp
qed

lemma decide_busy: "decide (swing_ctx ps (Some tr)) t now = None"
  by (simp add: decide_def swing_ctx_def)

lemma decide_short: "length ps < 20 \<Longrightarrow> decide (swing_ctx ps None) t now = None"
  unfolding decide_swing by (simp add: calculateIndicators_def evaluateStrategy_def hold_def)

lemma decide1: "decide (swing_ctx (warmup_prices @ [101]) None) t now = Some call_signal"
  unfolding decide_swing swing_signal1 by (simp add: call_signal_def)

lemma decide2: "decide (swing_ctx (warmup_prices @ [101, 102]) None) t now = Some call_signal"
  unfolding decide_swing swing_signal2 by (simp add: call_signal_def)

lemma step_tick:
  assumes "length ps < 100"
  shows "ctx_step \<lparr>ctx = swing_ctx ps ct, created = cr, awaiting = aw, requested = rq\<rparr>
           (TickDelivered ''u'' (tick_at p) now) =
         (case decide (swing_ctx (ps @ [p]) ct) (tick_at p) now of
            None \<Rightarrow> \<lparr>ctx = swing_ctx (ps @ [p]) ct, created = cr, awaiting = aw, requested = rq\<rparr>
          | Some sig \<Rightarrow>
              \<lparr>ctx = swing_ctx (ps @ [p]) ct,
               created = cr @ [bot_trade (fresh_id cr) (swing_ctx (ps @ [p]) ct) sig (tick_at p)],
               awaiting = aw @ [(bot_trade (fresh_id cr) (swing_ctx (ps @ [p]) ct) sig (tick_at p), sig)],
               requested = rq\<rparr>)"
proof -
  have g: "bd_userId (swing_ctx ps ct) = ''u''"
    "cfg_symbol (configuration (bd_bot (swing_ctx ps ct))) = t_symbol (tick_at p)"
    "isRunning (swing_ctx ps ct)"
    by (simp_all add: swing_ctx_def swing_bot_def tick_at_def)
  have b: "(swing_ctx ps ct)\<lparr>tickBuffer := push_capped 100 (tick_at p) (tickBuffer (swing_ctx ps ct))\<rparr>
           = swing_ctx (ps @ [p]) ct"
    using assms by (simp add: swing_ctx_def push_capped_def Let_def)
  show ?thesis
    by (simp add: Let_def g b split: option.splits)
qed

lemma step_resolved:
  "ctx_step \<lparr>ctx = swing_ctx ps ct, created = cr, awaiting = (tr, sig) # aw, requested = rq\<rparr>
     CreateResolved =
   \<lparr>ctx = swing_ctx ps (Some tr), created = cr, awaiting = aw,
    requested = rq @ [bot_proposal (swing_ctx ps ct) sig]\<rparr>"
  by (simp add: swing_ctx_def)

lemma warmup_run:
  "length ps + length qs \<le> 19 \<Longrightarrow>
   foldl ctx_step \<lparr>ctx = swing_ctx ps None, created = [], awaiting = [], requested = []\<rparr>
     (map (\<lambda>p. TickDelivered ''u'' (tick_at p) 0) qs) =
   \<lparr>ctx = swing_ctx (ps @ qs) None, created = [], awaiting = [], requested = []\<rparr>"
proof (induction qs arbitrary: ps)
  case Nil
  then show ?case by simp
next
  case (Cons q qs)
  have l: "length ps < 100" "length (ps @ [q]) < 20" using Cons.prems by simp_all
  have "ctx_step \<lparr>ctx = swing_ctx ps None, created = [], awaiting = [], requested = []\<rparr>
           (TickDelivered ''u'' (tick_at q) 0) =
        \<lparr>ctx = swing_ctx (ps @ [q]) None, created = [], awaiting = [], requested = []\<rparr>"
    unfolding step_tick [OF l(1)] decide_short [OF l(2)] by simp
  then show ?case using Cons.IH [of "ps @ [q]"] Cons.prems by simp
qed

lemma warmed_up_eval:
  "warmed_up = \<lparr>ctx = swing_ctx warmup_prices None, created = [], awaiting = [], requested = []\<rparr>"
proof -
  have "ctx_init ''u'' swing_bot =
      \<lparr>ctx = swing_ctx [] None, created = [], awaiting = [], requested = []\<rparr>"
    by (simp add: ctx_init_def fresh_botData_def swing_ctx_def)
  moreover have "length ([]::real list) + length warmup_prices \<le> 19"
    by (simp add: warmup_prices_def)
  ultimately show ?thesis
    unfolding warmed_up_def ctx_run_def using warmup_run [of "[]" warmup_prices] by simp
qed

lemma trade_id_bot_trade [simp]: "trade_id (bot_trade n bd sig t) = n"
  by (simp add: bot_trade_def Let_def)

lemma fresh_id_one: "fresh_id [bot_trade 0 bd sig t] = 1"
  by (simp add: fresh_id_def)

lemma ctx_view_swing:
  "ctx_view \<lparr>ctx = swing_ctx ps ct, created = cr, awaiting = aw, requested = rq\<rparr> =
     (ps, map_option trade_id ct, map trade_id cr, length aw, length rq)"
  using quote_tick_at [of ps] by (simp add: ctx_view_def swing_ctx_def)

lemma paced_ticks:
  "ctx_view (ctx_run warmed_up
     [TickDelivered ''u'' (tick_at 101) 0, CreateResolved,
      TickDelivered ''u'' (tick_at 102) 0]) =
   (warmup_prices @ [101, 102], Some 0, [0], 0, 1)"
proof -
  have l: "length warmup_prices < 100" "length (warmup_prices @ [101]) < 100"
    by (simp_all add: warmup_prices_def)
  have s1: "ctx_step warmed_up (TickDelivered ''u'' (tick_at 101) 0) =
      \<lparr>ctx = swing_ctx (warmup_prices @ [101]) None,
       created = [bot_trade 0 (swing_ctx (warmup_prices @ [101]) None) call_signal (tick_at 101)],
       awaiting = [(bot_trade 0 (swing_ctx (warmup_prices @ [101]) None) call_signal (tick_at 101),
                    call_signal)],
       requested = []\<rparr>"
    unfolding warmed_up_eval step_tick [OF l(1)] decide1 by (simp add: fresh_id_def)
  show ?thesis
    unfolding ctx_run_def
    by (simp add: s1 step_resolved step_tick [OF l(2)] decide_busy ctx_view_swing
        del: ctx_step.simps)
qed

text \<open>
  C1. The claim: once a trade has been created for a context, the context issues no
  further proposal or order until that trade settles, also when further ticks arrive
  before the order is confirmed; the slot is occupied together with the decision. The
  code: \<open>evaluateTradeSignal\<close> tests \<open>botData.currentTrade\<close>, but \<open>placeTrade\<close> stores the
  trade there only after \<open>await create(...)\<close>. A swing bot whose buffer holds 19 prices
  and whose slot is empty receives the ticks 101 and 102 before the Trade collection has
  answered the first \<open>create\<close>: both ticks pass the test of the slot and give a CALL
  signal, two Trade documents (ids 0 and 1) are created and two proposals are requested,
  and the slot ends up holding the second trade.
\<close>

theorem C1_rapid_ticks_duplicate_order:
  "currentTrade (ctx warmed_up) = None \<and> created warmed_up = [] \<and>
   ctx_view (ctx_run warmed_up
     [TickDelivered ''u'' (tick_at 101) 0, TickDelivered ''u'' (tick_at 102) 0,
      CreateResolved, CreateResolved]) =
   (warmup_prices @ [101, 102], Some 1, [0, 1], 0, 2)"
proof -
  have l: "length warmup_prices < 100" "length (warmup_prices @ [101]) < 100"
    by (simp_all add: warmup_prices_def)
  have s1: "ctx_step warmed_up (TickDelivered ''u'' (tick_at 101) 0) =
      \<lparr>ctx = swing_ctx (warmup_prices @ [101]) None,
       created = [bot_trade 0 (swing_ctx (warmup_prices @ [101]) None) call_signal (tick_at 101)],
       awaiting = [(bot_trade 0 (swing_ctx (warmup_prices @ [101]) None) call_signal (tick_at 101),
                    call_signal)],
       requested = []\<rparr>"
    unfolding warmed_up_eval step_tick [OF l(1)] decide1 by (simp add: fresh_id_def)
  have s2: "ctx_step (ctx_step warmed_up (TickDelivered ''u'' (tick_at 101) 0))
        (TickDelivered ''u'' (tick_at 102) 0) =
      \<lparr>ctx = swing_ctx (warmup_prices @ [101, 102]) None,
       created = [bot_trade 0 (swing_ctx (warmup_prices @ [101]) None) call_signal (tick_at 101),
                  bot_trade 1 (swing_ctx (warmup_prices @ [101, 102]) None) call_signal (tick_at 102)],
       awaiting = [(bot_trade 0 (swing_ctx (warmup_prices @ [101]) None) call_signal (tick_at 101),
                    call_signal),
                   (bot_trade 1 (swing_ctx (warmup_prices @ [101, 102]) None) call_signal (tick_at 102),
                    call_signal)],
       requested = []\<rparr>"
    unfolding s1 step_tick [OF l(2)] using decide2 by (simp add: fresh_id_one)
  have "ctx_view (ctx_run warmed_up
     [TickDelivered ''u'' (tick_at 101) 0, TickDelivered ''u'' (tick_at 102) 0,
      CreateResolved, CreateResolved]) =
   (warmup_prices @ [101, 102], Some 1, [0, 1], 0, 2)"
    unfolding ctx_run_def
    by (simp add: s2 step_resolved ctx_view_swing del: ctx_step.simps)
  moreover have "currentTrade (ctx warmed_up) = None \<and> created warmed_up = []"
    by (simp add: warmed_up_eval swing_ctx_def)
  ultimately show ?thesis by simp
qed

subsection \<open>The accumulators of the bot contexts and the log\<close>

lemma map_of_map_set: "map_of (map_set k v al) = (map_of al)(k \<mapsto> v)"
  by (induction al) (auto simp add: fun_eq_iff)

lemma fst_map_set: "k \<in> fst ` set al \<Longrightarrow> map fst (map_set k v al) = map fst al"
  by (induction al) force+

lemma fst_map_set_new: "k \<notin> fst ` set al \<Longrightarrow> map fst (map_set k v al) = map fst al @ [k]"
  by (induction al) auto

lemma distinct_map_set: "distinct (map fst al) \<Longrightarrow> distinct (map fst (map_set k v al))"
  by (cases "k \<in> fst ` set al") (simp_all add: fst_map_set fst_map_set_new)

lemma map_of_map_delete: "map_of (map_delete k al) = (map_of al)(k := None)"
  by (induction al) (auto simp add: map_delete_def fun_eq_iff)

lemma distinct_map_delete: "distinct (map fst al) \<Longrightarrow> distinct (map fst (map_delete k al))"
  by (simp add: map_delete_def distinct_map_filter)

lemma bot_losses_snoc:
  "bot_losses_since_start b (h @ [item]) =
     (case item of
        BotStarted b' \<Rightarrow> if b' = b then 0 else bot_losses_since_start b h
      | BotSettled b' status pl \<Rightarrow>
          if b' = b \<and> status = ''lost'' then bot_losses_since_start b h + \<bar>pl\<bar>
          else bot_losses_since_start b h)"
  by (simp add: bot_losses_since_start_def split: bot_hist.splits)

text \<open>A context is replaced by one with the same accumulated loss, and the log stays.\<close>

lemma ledger_replace:
  assumes "bot_ledger_ok e" "map_of (activeBots e) b = Some bd" "bd_dailyLoss bd' = bd_dailyLoss bd"
    "activeBots e' = map_set b bd' (activeBots e)" "bot_history e' = bot_history e"
  shows "bot_ledger_ok e'"
  using assms
  by (auto simp add: bot_ledger_ok_def map_of_map_set distinct_map_set split: if_splits)

lemma find_map_of:
  assumes "distinct (map fst al)" "find P al = Some (k, v)"
  shows "map_of al k = Some v"
proof -
  have "(k, v) \<in> set al" using assms(2) by (auto simp add: find_Some_iff)
  then show ?thesis using assms(1) by simp
qed

lemma process_bot_ok: "bot_ledger_ok e \<Longrightarrow> bot_ledger_ok (process_bot u t now e b)"
proof -
  assume ok: "bot_ledger_ok e"
  show ?thesis
  proof (cases "map_of (activeBots e) b")
    case None
    then show ?thesis using ok by (simp add: process_bot_def)
  next
    case (Some bd)
    let ?bd1 = "bd\<lparr>tickBuffer := push_capped 100 t (tickBuffer bd)\<rparr>"
    show ?thesis
    proof (cases "bd_userId bd = u \<and> cfg_symbol (configuration (bd_bot bd)) = t_symbol t \<and> isRunning bd")
      case False
      then show ?thesis using ok Some by (auto simp add: process_bot_def)
    next
      case True
      show ?thesis
      proof (cases "decide ?bd1 t now")
        case None
        have "process_bot u t now e b = e\<lparr>activeBots := map_set b ?bd1 (activeBots e)\<rparr>"
          using Some True None by (simp add: process_bot_def Let_def)
        then show ?thesis
          using ledger_replace [OF ok Some, of ?bd1 "process_bot u t now e b"] by simp
      next
        case (Some sig)
        let ?tr = "bot_trade (fresh_id (ex_trades e)) ?bd1 sig t"
        have "process_bot u t now e b =
              e\<lparr>ex_trades := ex_trades e @ [?tr],
                calls := calls e @ [CallGetProposal (bot_proposal ?bd1 sig)],
                activeBots := map_set b (?bd1\<lparr>currentTrade := Some ?tr\<rparr>) (activeBots e)\<rparr>"
          using \<open>map_of (activeBots e) b = Some bd\<close> True Some
          by (simp add: process_bot_def Let_def)
        then show ?thesis
          using ledger_replace [OF ok \<open>map_of (activeBots e) b = Some bd\<close>,
              of "?bd1\<lparr>currentTrade := Some ?tr\<rparr>" "process_bot u t now e b"] by simp
      qed
    qed
  qed
qed

lemma foldl_process_ok:
  "bot_ledger_ok e \<Longrightarrow> bot_ledger_ok (foldl (process_bot u t now) e bs)"
  by (induction bs arbitrary: e) (simp_all add: process_bot_ok)

lemma handleTickUpdate_ok: "bot_ledger_ok e \<Longrightarrow> bot_ledger_ok (handleTickUpdate u t now e)"
proof -
  assume ok: "bot_ledger_ok e"
  let ?e1 = "e\<lparr>tickData := (tickData e)(t_symbol t \<mapsto>
      push_capped 1000 t (case tickData e (t_symbol t) of None \<Rightarrow> [] | Some h \<Rightarrow> h))\<rparr>"
  have "bot_ledger_ok ?e1" using ok by (simp add: bot_ledger_ok_def)
  then show ?thesis
    unfolding handleTickUpdate_def Let_def by (rule foldl_process_ok)
qed

lemma handleBuyConfirmation_ok:
  "bot_ledger_ok e \<Longrightarrow> bot_ledger_ok (handleBuyConfirmation u cid pay e)"
proof -
  assume ok: "bot_ledger_ok e"
  let ?P = "\<lambda>kv. bd_userId (snd kv) = u \<and> currentTrade (snd kv) \<noteq> None"
  show ?thesis
  proof (cases "find ?P (activeBots e)")
    case None
    then show ?thesis using ok by (simp add: handleBuyConfirmation_def)
  next
    case (Some kv)
    obtain b bd where kv: "kv = (b, bd)" by (cases kv)
    have m: "map_of (activeBots e) b = Some bd"
      using find_map_of [of "activeBots e" ?P b bd] ok Some kv by (simp add: bot_ledger_ok_def)
    let ?tr = "(the (currentTrade bd))\<lparr>contractId := Some cid, payout := Some pay,
                                            trade_status := ''open''\<rparr>"
    have "handleBuyConfirmation u cid pay e =
        e\<lparr>ex_trades := db_save ?tr (ex_trades e),
          activeBots := map_set b (bd\<lparr>currentTrade := Some ?tr\<rparr>) (activeBots e),
          calls := calls e @ [CallSubscribeToContract u cid]\<rparr>"
      using Some kv by (simp add: handleBuyConfirmation_def Let_def)
    then show ?thesis
      using ledger_replace [OF ok m, of "bd\<lparr>currentTrade := Some ?tr\<rparr>"
          "handleBuyConfirmation u cid pay e"] by simp
  qed
qed

lemma clear_slot_ok: "bot_ledger_ok e \<Longrightarrow> bot_ledger_ok (clear_slot tr e)"
proof -
  assume ok: "bot_ledger_ok e"
  let ?P = "\<lambda>kv. case currentTrade (snd kv) of None \<Rightarrow> False | Some ct \<Rightarrow> trade_id ct = trade_id tr"
  show ?thesis
  proof (cases "find ?P (activeBots e)")
    case None
    then show ?thesis using ok by (simp add: clear_slot_def)
  next
    case (Some kv)
    obtain b bd where kv: "kv = (b, bd)" by (cases kv)
    have m: "map_of (activeBots e) b = Some bd"
      using find_map_of [of "activeBots e" ?P b bd] ok Some kv by (simp add: bot_ledger_ok_def)
    define pl where "pl = (case profitLoss tr of None \<Rightarrow> 0 | Some p \<Rightarrow> p)"
    define bd2 where "bd2 = (if trade_status tr = ''lost''
                      then bd\<lparr>currentTrade := None,
                              bd_dailyLoss := bd_dailyLoss bd + \<bar>pl\<bar>,
                              consecutiveLosses := consecutiveLosses bd + 1\<rparr>
                      else bd\<lparr>currentTrade := None, consecutiveLosses := 0\<rparr>)"
    have eq: "clear_slot tr e =
        e\<lparr>activeBots := map_set b bd2 (activeBots e),
          bot_history := bot_history e @ [BotSettled b (trade_status tr) pl]\<rparr>"
      using Some kv by (simp add: clear_slot_def Let_def pl_def bd2_def)
    have d: "bd_dailyLoss bd2 =
        (if trade_status tr = ''lost'' then bd_dailyLoss bd + \<bar>pl\<bar> else bd_dailyLoss bd)"
      by (simp add: bd2_def)
    show ?thesis
      unfolding eq using ok m d
      by (auto simp add: bot_ledger_ok_def map_of_map_set distinct_map_set bot_losses_snoc
          split: if_splits)
  qed
qed

lemma handleContractUpdate_ok:
  "bot_ledger_ok e \<Longrightarrow> bot_ledger_ok (handleContractUpdate u c e)"
proof -
  assume ok: "bot_ledger_ok e"
  have "\<And>ts. bot_ledger_ok (e\<lparr>ex_trades := ts\<rparr>)" using ok by (simp add: bot_ledger_ok_def)
  then show ?thesis
    using ok by (simp add: handleContractUpdate_def Let_def clear_slot_ok split: option.splits)
qed

lemma startBot_ok: "bot_ledger_ok e \<Longrightarrow> bot_ledger_ok (startBot b u bt e)"
  by (auto simp add: bot_ledger_ok_def startBot_def map_of_map_set distinct_map_set
      bot_losses_snoc fresh_botData_def split: if_splits)

lemma stopBot_ok: "bot_ledger_ok e \<Longrightarrow> bot_ledger_ok (stopBot b e)"
proof (cases "map_of (activeBots e) b")
  case None
  assume "bot_ledger_ok e"
  then show ?thesis using None by (simp add: stopBot_def)
next
  case (Some bd)
  assume ok: "bot_ledger_ok e"
  have "\<And>b' bd'. map_of (map_delete b (activeBots e)) b' = Some bd' \<Longrightarrow>
          map_of (activeBots e) b' = Some bd'"
    by (simp add: map_of_map_delete split: if_splits)
  then show ?thesis
    using ok Some distinct_map_delete [of "activeBots e" b]
    unfolding bot_ledger_ok_def stopBot_def by simp
qed

lemma pauseBot_ok: "bot_ledger_ok e \<Longrightarrow> bot_ledger_ok (pauseBot b e)"
proof (cases "map_of (activeBots e) b")
  case None
  assume "bot_ledger_ok e"
  then show ?thesis using None by (simp add: pauseBot_def)
next
  case (Some bd)
  assume ok: "bot_ledger_ok e"
  show ?thesis
    using ledger_replace [OF ok Some, of "bd\<lparr>isRunning := False\<rparr>" "pauseBot b e"] Some
    by (simp add: pauseBot_def)
qed

lemma resumeBot_ok: "bot_ledger_ok e \<Longrightarrow> bot_ledger_ok (resumeBot b e)"
proof (cases "map_of (activeBots e) b")
  case None
  assume "bot_ledger_ok e"
  then show ?thesis using None by (simp add: resumeBot_def)
next
  case (Some bd)
  assume ok: "bot_ledger_ok e"
  show ?thesis
    using ledger_replace [OF ok Some, of "bd\<lparr>isRunning := True\<rparr>" "resumeBot b e"] Some
    by (simp add: resumeBot_def)
qed

lemma exec_step_ok: "bot_ledger_ok e \<Longrightarrow> bot_ledger_ok (exec_step e ev)"
  by (cases ev)
    (simp_all add: startBot_ok stopBot_ok pauseBot_ok resumeBot_ok handleTickUpdate_ok
      handleBuyConfirmation_ok handleContractUpdate_ok)

lemma exec_run_ok: "bot_ledger_ok e \<Longrightarrow> bot_ledger_ok (exec_run e evs)"
  unfolding exec_run_def by (induction evs arbitrary: e) (simp_all add: exec_step_ok)

lemma bot_ledger:
  "map_of (activeBots (exec_run exec_init evs)) b = Some bd \<Longrightarrow>
   bd_dailyLoss bd = bot_losses_since_start b (bot_history (exec_run exec_init evs))"
proof -
  have "bot_ledger_ok exec_init" by (simp add: bot_ledger_ok_def exec_init_def)
  then have "bot_ledger_ok (exec_run exec_init evs)" by (rule exec_run_ok)
  then show "map_of (activeBots (exec_run exec_init evs)) b = Some bd \<Longrightarrow>
   bd_dailyLoss bd = bot_losses_since_start b (bot_history (exec_run exec_init evs))"
    by (simp add: bot_ledger_ok_def)
qed

end
